theory Spec2Isabelle
  imports Main "HOL-Library.Sublist"
begin

section \<open>Go library functions called by runner.go\<close>

text \<open>
  Go strings are byte sequences; they are modelled as \<^typ>\<open>string\<close>. The library
  functions below are written out for the argument shapes runner.go uses.

  \<^verbatim>\<open>strings.Split(s, sep)\<close> for a one-byte separator: the pieces of \<open>s\<close> between the
  separators; the result is never empty (\<open>Split("", ":")\<close> is \<open>[""]\<close>).
\<close>

fun strings_Split :: "string \<Rightarrow> char \<Rightarrow> string list" where
  "strings_Split [] sep = [[]]"
| "strings_Split (c # cs) sep =
     (if c = sep then [] # strings_Split cs sep
      else (case strings_Split cs sep of
              [] \<Rightarrow> [[c]]
            | p # ps \<Rightarrow> (c # p) # ps))"

text \<open>\<^verbatim>\<open>strings.Contains(s, substr)\<close>.\<close>

fun strings_Contains :: "string \<Rightarrow> string \<Rightarrow> bool" where
  "strings_Contains [] sub = (sub = [])"
| "strings_Contains (c # cs) sub = (prefix sub (c # cs) \<or> strings_Contains cs sub)"

text \<open>\<^verbatim>\<open>strings.Index(s, substr)\<close>: the first position of \<open>substr\<close>, or -1.\<close>

fun strings_Index :: "string \<Rightarrow> string \<Rightarrow> int" where
  "strings_Index [] sub = (if sub = [] then 0 else - 1)"
| "strings_Index (c # cs) sub =
     (if prefix sub (c # cs) then 0
      else (let i = strings_Index cs sub in if i < 0 then - 1 else i + 1))"

text \<open>
  \<^verbatim>\<open>strings.Replace(s, old, new, -1)\<close>: every non-overlapping occurrence of \<open>old\<close>,
  from the left, becomes \<open>new\<close>. With an empty \<open>old\<close> Go inserts \<open>new\<close> before every
  byte and at the end (runner.go never passes an empty \<open>old\<close>).
\<close>

fun strings_ReplaceAll :: "string \<Rightarrow> string \<Rightarrow> string \<Rightarrow> string" where
  "strings_ReplaceAll [] old new = (if old = [] then new else [])"
| "strings_ReplaceAll (c # cs) old new =
     (if old = [] then new @ c # strings_ReplaceAll cs old new
      else if prefix old (c # cs)
        then new @ strings_ReplaceAll (drop (length old) (c # cs)) old new
      else c # strings_ReplaceAll cs old new)"

text \<open>\<^verbatim>\<open>strings.Replace(s, old, new, 1)\<close>: only the first occurrence is replaced.\<close>

fun strings_ReplaceFirst :: "string \<Rightarrow> string \<Rightarrow> string \<Rightarrow> string" where
  "strings_ReplaceFirst [] old new = (if old = [] then new else [])"
| "strings_ReplaceFirst (c # cs) old new =
     (if prefix old (c # cs) then new @ drop (length old) (c # cs)
      else c # strings_ReplaceFirst cs old new)"

text \<open>\<^verbatim>\<open>strings.Trim(s, cutset)\<close>: leading and trailing bytes of the cutset removed.\<close>

definition strings_Trim :: "string \<Rightarrow> string \<Rightarrow> string" where
  "strings_Trim s cutset =
     rev (dropWhile (\<lambda>c. c \<in> set cutset) (rev (dropWhile (\<lambda>c. c \<in> set cutset) s)))"

text \<open>
  \<^verbatim>\<open>strings.SplitAfterN(s, sep, 2)\<close> for a one-byte separator: \<open>s\<close> cut after the
  first separator, or \<open>[s]\<close> when there is none.
\<close>

fun strings_SplitAfterN2 :: "string \<Rightarrow> char \<Rightarrow> string list" where
  "strings_SplitAfterN2 [] sep = [[]]"
| "strings_SplitAfterN2 (c # cs) sep =
     (if c = sep then [[c], cs]
      else (case strings_SplitAfterN2 cs sep of
              [p] \<Rightarrow> [c # p]
            | p # ps \<Rightarrow> (c # p) # ps
            | [] \<Rightarrow> [[c]]))"

text \<open>
  The regular expression \<^verbatim>\<open>{{[\w\.]*}}\<close> of \<open>parseCmdTemplate\<close>: two opening braces, any
  number of word characters (\<^verbatim>\<open>[0-9A-Za-z_]\<close>) and dots, two closing braces.
  \<open>match_token s\<close> is the match that starts at the head of \<open>s\<close>, if there is one: the
  repetition is greedy and the character after it must be a closing brace, which is not
  in the class, so the match at a position is unique. \<open>regexp_FindAll\<close> is
  \<^verbatim>\<open>reg.FindAll(s, -1)\<close>: the leftmost matches, each search resuming behind the
  previous match.
\<close>

definition word_char :: "char \<Rightarrow> bool" where
  "word_char c = (c \<in> set ''0123456789ABCDEFGHIJKLMNOPQRSTUVWXYZ_abcdefghijklmnopqrstuvwxyz'')"

definition token_char :: "char \<Rightarrow> bool" where
  "token_char c = (word_char c \<or> c = CHR ''.'')"

definition match_token :: "string \<Rightarrow> string option" where
  "match_token s =
     (case s of
        a # b # rest \<Rightarrow>
          if a = CHR ''{'' \<and> b = CHR ''{'' then
            (case dropWhile token_char rest of
               x # y # _ \<Rightarrow>
                 if x = CHR ''}'' \<and> y = CHR ''}''
                 then Some (''{{'' @ takeWhile token_char rest @ ''}}'')
                 else None
             | _ \<Rightarrow> None)
          else None
      | _ \<Rightarrow> None)"

function regexp_FindAll :: "string \<Rightarrow> string list" where
  "regexp_FindAll [] = []"
| "regexp_FindAll (c # cs) =
     (case match_token (c # cs) of
        Some m \<Rightarrow> m # regexp_FindAll (drop (length m) (c # cs))
      | None \<Rightarrow> regexp_FindAll cs)"
  by pat_completeness auto
termination
  by (relation "measure length") (auto simp: match_token_def split: list.splits if_splits)

section \<open>Data model\<close>

text \<open>
  The structs of the repository. \<open>LabelMap\<close> is a Go map from string to string: an
  association list here, because \<open>getLabelGroup\<close> iterates over it; a Go map holds each
  key once, which the theorems that need it assume as \<open>distinct (map fst ls)\<close>, in
  whatever order the iteration yields the entries.
\<close>

type_synonym LabelMap = "(string \<times> string) list"

record Host =
  UUID :: string
  Name :: string
  Address :: string
  Hostname :: string
  Labels :: LabelMap

record Container =
  Name :: string
  Address :: string
  Stack :: string
  Service :: string
  Health :: string
  State :: string
  Labels :: LabelMap
  Host :: Host

record ServicePort =
  PublicPort :: string
  InternalPort :: string
  Protocol :: string

record Service =
  Name :: string
  Stack :: string
  Kind :: string
  Vip :: string
  Fqdn :: string
  Labels :: LabelMap
  Metadata :: "(string \<times> string) list"
  Containers :: "Container list"
  Ports :: "ServicePort list"

record Self =
  Stack :: string
  Service :: string
  HostUUID :: string

record TemplateContext =
  Services :: "Service list"
  Containers :: "Container list"
  Hosts :: "Host list"
  Self :: Self

record Template =
  Source :: string
  Dest :: string
  CheckCmd :: string
  NotifyCmd :: string
  NotifyLbl :: string
  NotifyOutput :: bool
  Staging :: string

record Config =
  Templates :: "Template list"
  OneTime :: bool
  Interval :: nat

text \<open>The entries the metadata client returns (the fields \<open>createContext\<close> reads).\<close>

record MetaHost =
  UUID :: string
  Name :: string
  AgentIP :: string
  Hostname :: string
  Labels :: LabelMap

record MetaContainer =
  Name :: string
  PrimaryIp :: string
  StackName :: string
  ServiceName :: string
  HealthState :: string
  State :: string
  Labels :: LabelMap
  HostUUID :: string

record MetaService =
  Name :: string
  StackName :: string
  Kind :: string
  Vip :: string
  Fqdn :: string
  Labels :: LabelMap
  Metadata :: "(string \<times> string) list"
  Ports :: "string list"

text \<open>The zero value of \<open>Host\<close>, which a container keeps when no host has its UUID.\<close>

definition zeroHost :: Host where
  "zeroHost = \<lparr> Host.UUID = [], Host.Name = [], Host.Address = [], Host.Hostname = [],
                Host.Labels = [] \<rparr>"

section \<open>Pure parts of the context builder and of the command orchestrator\<close>

text \<open>
  \<open>parseServicePorts\<close>: a port string of the shape \<open>public:internal/protocol\<close> becomes
  a \<open>ServicePort\<close>; any other string is dropped (the warning is not modelled).
\<close>

fun parseServicePorts :: "string list \<Rightarrow> ServicePort list" where
  "parseServicePorts [] = []"
| "parseServicePorts (port # ports) =
     (let parts = strings_Split port CHR '':'' in
      if length parts = 2 then
        (let public = parts ! 0; parts' = strings_Split (parts ! 1) CHR ''/'' in
         if length parts' = 2 then
           \<lparr> PublicPort = public, InternalPort = parts' ! 0, Protocol = parts' ! 1 \<rparr>
             # parseServicePorts ports
         else parseServicePorts ports)
      else parseServicePorts ports)"

text \<open>
  The three loops of \<open>createContext\<close> over the fetched entries. \<open>findHost\<close> is the
  inner loop over the hosts with its \<open>break\<close>: the first host with the UUID wins.
\<close>

definition buildHost :: "MetaHost \<Rightarrow> Host" where
  "buildHost h = \<lparr> Host.UUID = MetaHost.UUID h, Host.Name = MetaHost.Name h,
                   Host.Address = MetaHost.AgentIP h, Host.Hostname = MetaHost.Hostname h,
                   Host.Labels = MetaHost.Labels h \<rparr>"

fun findHost :: "Host list \<Rightarrow> string \<Rightarrow> Host \<Rightarrow> Host" where
  "findHost [] uuid dflt = dflt"
| "findHost (h # hs) uuid dflt = (if Host.UUID h = uuid then h else findHost hs uuid dflt)"

definition buildContainer :: "Host list \<Rightarrow> MetaContainer \<Rightarrow> Container" where
  "buildContainer hosts c =
     \<lparr> Container.Name = MetaContainer.Name c, Container.Address = MetaContainer.PrimaryIp c,
       Container.Stack = MetaContainer.StackName c,
       Container.Service = MetaContainer.ServiceName c,
       Container.Health = MetaContainer.HealthState c,
       Container.State = MetaContainer.State c, Container.Labels = MetaContainer.Labels c,
       Container.Host = findHost hosts (MetaContainer.HostUUID c) zeroHost \<rparr>"

definition buildService :: "Container list \<Rightarrow> MetaService \<Rightarrow> Service" where
  "buildService containers s =
     \<lparr> Service.Name = MetaService.Name s, Service.Stack = MetaService.StackName s,
       Service.Kind = MetaService.Kind s, Service.Vip = MetaService.Vip s,
       Service.Fqdn = MetaService.Fqdn s, Service.Labels = MetaService.Labels s,
       Service.Metadata = MetaService.Metadata s,
       Service.Containers =
         filter (\<lambda>c. Container.Stack c = MetaService.StackName s
                     \<and> Container.Service c = MetaService.Name s) containers,
       Service.Ports = parseServicePorts (MetaService.Ports s) \<rparr>"

definition buildContext ::
  "MetaService list \<Rightarrow> MetaContainer list \<Rightarrow> MetaHost list \<Rightarrow> MetaContainer
     \<Rightarrow> TemplateContext" where
  "buildContext metaServices metaContainers metaHosts metaSelf =
     (let hosts = map buildHost metaHosts;
          containers = map (buildContainer hosts) metaContainers;
          services = map (buildService containers) metaServices;
          self = \<lparr> Self.Stack = MetaContainer.StackName metaSelf,
                   Self.Service = MetaContainer.ServiceName metaSelf,
                   Self.HostUUID = MetaContainer.HostUUID metaSelf \<rparr>
      in \<lparr> TemplateContext.Services = services, TemplateContext.Containers = containers,
           TemplateContext.Hosts = hosts, TemplateContext.Self = self \<rparr>)"

text \<open>
  The two nested loops of \<open>getLabelGroup\<close> (lines 269 to 278). The inner one runs over
  the entries of one container's label map and appends the container for every entry
  that matches; the outer one runs over the snapshot's containers in order.
\<close>

fun matchLabels ::
  "string \<Rightarrow> string \<Rightarrow> Container \<Rightarrow> LabelMap \<Rightarrow> Container list \<Rightarrow> Container list" where
  "matchLabels nLabelName nLabelValue c [] toNotify = toNotify"
| "matchLabels nLabelName nLabelValue c ((lbl, val) # rest) toNotify =
     matchLabels nLabelName nLabelValue c rest
       (if lbl = nLabelName then
          (if nLabelValue = [] \<or> val = nLabelValue then toNotify @ [c] else toNotify)
        else toNotify)"

fun matchContainers ::
  "string \<Rightarrow> string \<Rightarrow> Container list \<Rightarrow> Container list \<Rightarrow> Container list" where
  "matchContainers nLabelName nLabelValue [] toNotify = toNotify"
| "matchContainers nLabelName nLabelValue (c # cs) toNotify =
     matchContainers nLabelName nLabelValue cs
       (matchLabels nLabelName nLabelValue c (Container.Labels c) toNotify)"

text \<open>
  The selector of \<open>getLabelGroup\<close> (lines 248 to 257): the text before the first colon
  is the label name, the text between the first and the second colon (if there is a
  colon) the label value; indexing is in range because \<open>strings.Split\<close> never returns an
  empty slice.
\<close>

definition selectorName :: "string \<Rightarrow> string" where
  "selectorName label = strings_Split label CHR '':'' ! 0"

definition selectorValue :: "string \<Rightarrow> string" where
  "selectorValue label =
     (let split = strings_Split label CHR '':'' in
      if length split > 1 then split ! 1 else [])"

text \<open>
  \<open>parseCmdTemplate\<close>. \<open>containerFields\<close> is what \<^verbatim>\<open>structs.New(c).Fields()\<close> yields: the
  fields of \<open>Container\<close> by name, each with its value when the value is a string
  (\<^verbatim>\<open>Value().(string)\<close> gives the empty string for \<open>Labels\<close> and \<open>Host\<close>, which are not
  strings). A Go map read of a missing key gives the empty string.
\<close>

definition containerFields :: "Container \<Rightarrow> (string \<times> string option) list" where
  "containerFields c =
     [(''Name'', Some (Container.Name c)), (''Address'', Some (Container.Address c)),
      (''Stack'', Some (Container.Stack c)), (''Service'', Some (Container.Service c)),
      (''Health'', Some (Container.Health c)), (''State'', Some (Container.State c)),
      (''Labels'', None), (''Host'', None)]"

definition fieldString :: "Container \<Rightarrow> string \<Rightarrow> string" where
  "fieldString c key =
     (case map_of (containerFields c) key of Some (Some v) \<Rightarrow> v | _ \<Rightarrow> [])"

definition labelValue :: "LabelMap \<Rightarrow> string \<Rightarrow> string" where
  "labelValue ls label = (case map_of ls label of Some v \<Rightarrow> v | None \<Rightarrow> [])"

fun fieldLoop ::
  "Container \<Rightarrow> string \<Rightarrow> string \<Rightarrow> (string \<times> string option) list \<Rightarrow> string \<Rightarrow> string" where
  "fieldLoop c key m [] ret = ret"
| "fieldLoop c key m (f # fs) ret =
     fieldLoop c key m fs
       (if fst f = key then strings_ReplaceAll ret m (fieldString c key) else ret)"

definition tokenKey :: "string \<Rightarrow> string" where
  "tokenKey m =
     (let key = strings_Trim m ''{}'' in
      if strings_Index key ''.'' = 0 then strings_ReplaceFirst key ''.'' [] else key)"

fun substLoop :: "Container \<Rightarrow> string list \<Rightarrow> string \<Rightarrow> string" where
  "substLoop c [] ret = ret"
| "substLoop c (m # ms) ret =
     (let key = tokenKey m in
      if strings_Contains key ''Labels.'' then
        (let labelParts = strings_SplitAfterN2 key CHR ''.'';
             label = last labelParts
         in substLoop c ms (strings_ReplaceAll ret m (labelValue (Container.Labels c) label)))
      else substLoop c ms (fieldLoop c key m (containerFields c) ret))"

definition parseCmdTemplate :: "Container \<Rightarrow> string \<Rightarrow> string \<times> string option" where
  "parseCmdTemplate c command = (substLoop c (regexp_FindAll command) command, None)"

section \<open>The outside world\<close>

text \<open>
  Everything the runner does to the outside is an \<open>event\<close>; a run of a function is the
  list of events it performs, in order. What the outside answers is given by an
  environment \<open>env\<close> of oracles, one per call into the metadata client, the operating
  system and the template engine. Each oracle sees the history, that is all events
  performed before the call, so its answer may change from call to call (the metadata
  version moves, a file exists after it was written, a command fails the second time).
  A function of the runner takes the environment and the history and returns its
  result with the events it performed; errors are the texts of the Go errors.
  Logging is not modelled, apart from \<^verbatim>\<open>log.Error\<close> in \<open>Run\<close> and \<^verbatim>\<open>log.Fatalf\<close>, which ends
  the process.
\<close>

datatype event =
    EvGetVersion
  | EvGetServices
  | EvGetContainers
  | EvGetHosts
  | EvGetSelfContainer
  | EvSleep nat
  | EvStat string
  | EvReadFile string
  | EvRender string
  | EvStdout string
  | EvOpen string
  | EvCopy string
  | EvClose string
  | EvTempFile string string
  | EvWrite string string
  | EvChmod string nat
  | EvChown string nat nat
  | EvRemove string
  | EvRename string string
  | EvWriteFile string string nat
  | EvCheck string
  | EvNotify string bool
  | EvLogError string
  | EvTick
  | EvSignal string

record FileInfo =
  Mode :: nat
  Sys :: "(nat \<times> nat) option"

datatype stat = Stat_ok FileInfo | Stat_not_exist string | Stat_error string

datatype wakeup = Tick | Signal string

record env =
  GetVersion :: "event list \<Rightarrow> string + string"
  GetServices :: "event list \<Rightarrow> string + MetaService list"
  GetContainers :: "event list \<Rightarrow> string + MetaContainer list"
  GetHosts :: "event list \<Rightarrow> string + MetaHost list"
  GetSelfContainer :: "event list \<Rightarrow> string + MetaContainer"
  os_Stat :: "event list \<Rightarrow> string \<Rightarrow> stat"
  ioutil_ReadFile :: "event list \<Rightarrow> string \<Rightarrow> string + string"
  template_Parse :: "string \<Rightarrow> string \<Rightarrow> string option"
  template_Execute :: "TemplateContext \<Rightarrow> string \<Rightarrow> string \<Rightarrow> string + string"
  filepath_Base :: "string \<Rightarrow> string"
  filepath_Dir :: "string \<Rightarrow> string"
  md5_hex :: "string \<Rightarrow> string"
  os_Open :: "event list \<Rightarrow> string \<Rightarrow> string option"
  io_Copy :: "event list \<Rightarrow> string \<Rightarrow> string + string"
  ioutil_TempFile :: "event list \<Rightarrow> string \<Rightarrow> string \<Rightarrow> string + string"
  file_Write :: "event list \<Rightarrow> string \<Rightarrow> string \<Rightarrow> string option"
  file_Chmod :: "event list \<Rightarrow> string \<Rightarrow> nat \<Rightarrow> string option"
  file_Chown :: "event list \<Rightarrow> string \<Rightarrow> nat \<Rightarrow> nat \<Rightarrow> string option"
  os_Rename :: "event list \<Rightarrow> string \<Rightarrow> string \<Rightarrow> string option"
  ioutil_WriteFile :: "event list \<Rightarrow> string \<Rightarrow> string \<Rightarrow> nat \<Rightarrow> string option"
  os_Chown :: "event list \<Rightarrow> string \<Rightarrow> nat \<Rightarrow> nat \<Rightarrow> string option"
  CombinedOutput :: "event list \<Rightarrow> string \<Rightarrow> string option"
  select_wakeup :: "event list \<Rightarrow> wakeup"

text \<open>
  What a function of the runner returns: \<open>nil\<close>, an error, or nothing at all because
  \<^verbatim>\<open>log.Fatalf\<close> ended the process.
\<close>

datatype outcome = Return_nil | Return_error string | Exit_fatal string

section \<open>The runner\<close>

text \<open>
  \<open>createContext\<close> (lines 351 to 439): the four fetches in order, the first failure
  returned as it is; then the snapshot is built from what was fetched.
\<close>

definition createContext :: "env \<Rightarrow> event list \<Rightarrow> (string + TemplateContext) \<times> event list" where
  "createContext env h =
     (case GetServices env h of
        Inl e \<Rightarrow> (Inl e, [EvGetServices])
      | Inr metaServices \<Rightarrow>
     (case GetContainers env (h @ [EvGetServices]) of
        Inl e \<Rightarrow> (Inl e, [EvGetServices, EvGetContainers])
      | Inr metaContainers \<Rightarrow>
     (case GetHosts env (h @ [EvGetServices, EvGetContainers]) of
        Inl e \<Rightarrow> (Inl e, [EvGetServices, EvGetContainers, EvGetHosts])
      | Inr metaHosts \<Rightarrow>
     (case GetSelfContainer env (h @ [EvGetServices, EvGetContainers, EvGetHosts]) of
        Inl e \<Rightarrow> (Inl e, [EvGetServices, EvGetContainers, EvGetHosts, EvGetSelfContainer])
      | Inr metaSelf \<Rightarrow>
          (Inr (buildContext metaServices metaContainers metaHosts metaSelf),
           [EvGetServices, EvGetContainers, EvGetHosts, EvGetSelfContainer])))))"

text \<open>
  \<open>check\<close> and \<open>notify\<close> (lines 462 to 493) run the command through \<^verbatim>\<open>/bin/sh -c\<close>; the
  oracle \<open>CombinedOutput\<close> answers with the error of the run, if any (the output is only
  logged).
\<close>

definition check :: "env \<Rightarrow> event list \<Rightarrow> string \<Rightarrow> string option \<times> event list" where
  "check env h command = (CombinedOutput env h command, [EvCheck command])"

definition notify :: "env \<Rightarrow> event list \<Rightarrow> string \<Rightarrow> bool \<Rightarrow> string option \<times> event list" where
  "notify env h command verbose = (CombinedOutput env h command, [EvNotify command verbose])"

text \<open>
  \<open>runCheckNotify\<close> (lines 207 to 238). The \<open>err\<close> returned on the last line is the
  outer variable, which is never assigned: the inner ones shadow it.
\<close>

definition effectiveCheck :: "Template \<Rightarrow> string \<Rightarrow> string" where
  "effectiveCheck t parsedCheck = (if parsedCheck \<noteq> [] then parsedCheck else CheckCmd t)"

definition effectiveNotify :: "Template \<Rightarrow> string \<Rightarrow> string" where
  "effectiveNotify t parsedNotify = (if parsedNotify \<noteq> [] then parsedNotify else NotifyCmd t)"

definition runCheckNotify ::
  "env \<Rightarrow> event list \<Rightarrow> Template \<Rightarrow> string \<Rightarrow> string \<Rightarrow> string option \<times> event list" where
  "runCheckNotify env h t parsedCheck parsedNotify =
     (let checkCmd = effectiveCheck t parsedCheck;
          (cerr, ev1) =
            (if checkCmd \<noteq> [] then
               check env h (strings_ReplaceAll checkCmd ''{{staging}}'' (Staging t))
             else (None, []))
      in case cerr of
           Some e \<Rightarrow> (Some (''Check command failed: '' @ e), ev1)
         | None \<Rightarrow>
             (let notifyCmd = effectiveNotify t parsedNotify;
                  (nerr, ev2) =
                    (if notifyCmd \<noteq> [] then notify env (h @ ev1) notifyCmd (NotifyOutput t)
                     else (None, []))
              in case nerr of
                   Some e \<Rightarrow> (Some (''Notify command failed: '' @ e), ev1 @ ev2)
                 | None \<Rightarrow> (None, ev1 @ ev2)))"

text \<open>\<open>getLabelGroup\<close> (lines 240 to 281); a \<open>nil\<close> slice is the empty list.\<close>

definition getLabelGroup ::
  "env \<Rightarrow> event list \<Rightarrow> string \<Rightarrow> (Container list \<times> string option) \<times> event list" where
  "getLabelGroup env h label =
     (if label = [] then (([], Some ''NotifyLabelGroup failed: no label specified''), [])
      else
        (let nLabelName = selectorName label;
             nLabelValue = selectorValue label
         in case createContext env h of
              (Inl e, evs) \<Rightarrow>
                (([], Some (''Failed to create context from Rancher Metadata: '' @ e)),
                 evs @ [EvSleep 2])
            | (Inr ctx, evs) \<Rightarrow>
                ((matchContainers nLabelName nLabelValue (TemplateContext.Containers ctx) [],
                  None), evs)))"

text \<open>
  The label fan-out loop of \<open>processTemplate\<close> (lines 192 to 201): the error of
  \<open>runCheckNotify\<close> only builds an error value that is dropped.
\<close>

fun notifyLoop :: "env \<Rightarrow> event list \<Rightarrow> Template \<Rightarrow> Container list \<Rightarrow> event list" where
  "notifyLoop env h t [] = []"
| "notifyLoop env h t (c # cs) =
     (let parsedCheck = fst (parseCmdTemplate c (CheckCmd t));
          parsedNotify = fst (parseCmdTemplate c (NotifyCmd t));
          ev = snd (runCheckNotify env h t parsedCheck parsedNotify)
      in ev @ notifyLoop env (h @ ev) t cs)"

text \<open>The command phase of \<open>processTemplate\<close> (lines 185 to 202).\<close>

definition commandPhase :: "env \<Rightarrow> event list \<Rightarrow> Template \<Rightarrow> event list" where
  "commandPhase env h t =
     (if NotifyLbl t = [] then snd (runCheckNotify env h t [] [])
      else
        (case getLabelGroup env h (NotifyLbl t) of
           ((toNotify, _), ev1) \<Rightarrow> ev1 @ notifyLoop env (h @ ev1) t toNotify))"

text \<open>
  The rendering block of \<open>processTemplate\<close> (lines 125 to 145): the source is checked
  for existence, read, parsed and executed; each failure ends the process through
  \<^verbatim>\<open>log.Fatalf\<close> (the left results). Parsing and executing are the template engine's, which
  reads the snapshot through the function map only.
\<close>

definition quoted :: "string \<Rightarrow> string" where
  "quoted s = CHR 0x27 # s @ [CHR 0x27]"

definition renderSource ::
  "env \<Rightarrow> event list \<Rightarrow> TemplateContext \<Rightarrow> Template \<Rightarrow> (string + string) \<times> event list" where
  "renderSource env h ctx t =
     (case os_Stat env h (Source t) of
        Stat_not_exist e \<Rightarrow>
          (Inl (''Template '' @ quoted (Source t) @ '' is missing''), [EvStat (Source t)])
      | _ \<Rightarrow>
     (case ioutil_ReadFile env (h @ [EvStat (Source t)]) (Source t) of
        Inl e \<Rightarrow>
          (Inl (''Could not read template '' @ quoted (Source t) @ '': '' @ e),
           [EvStat (Source t), EvReadFile (Source t)])
      | Inr tmplBytes \<Rightarrow>
     (let name = filepath_Base env (Source t) in
      case template_Parse env name tmplBytes of
        Some e \<Rightarrow>
          (Inl (''Could not parse template '' @ quoted (Source t) @ '': '' @ e),
           [EvStat (Source t), EvReadFile (Source t)])
      | None \<Rightarrow>
     (case template_Execute env ctx name tmplBytes of
        Inl e \<Rightarrow>
          (Inl (''Could not render template: '' @ quoted (Source t) @ '': '' @ e),
           [EvStat (Source t), EvReadFile (Source t), EvRender (Source t)])
      | Inr content \<Rightarrow>
          (Inr content, [EvStat (Source t), EvReadFile (Source t), EvRender (Source t)])))))"

text \<open>
  \<open>computeFileMd5\<close> (lines 524 to 541): a file that cannot be inspected has the empty
  digest; otherwise the file is opened and copied into the hash, and closed on return.
\<close>

definition computeFileMd5 :: "env \<Rightarrow> event list \<Rightarrow> string \<Rightarrow> (string + string) \<times> event list" where
  "computeFileMd5 env h filePath =
     (case os_Stat env h filePath of
        Stat_ok fi \<Rightarrow>
          (case os_Open env (h @ [EvStat filePath]) filePath of
             Some e \<Rightarrow> (Inl e, [EvStat filePath, EvOpen filePath])
           | None \<Rightarrow>
               (case io_Copy env (h @ [EvStat filePath, EvOpen filePath]) filePath of
                  Inl e \<Rightarrow>
                    (Inl e, [EvStat filePath, EvOpen filePath, EvCopy filePath, EvClose filePath])
                | Inr bytes \<Rightarrow>
                    (Inr (md5_hex env bytes),
                     [EvStat filePath, EvOpen filePath, EvCopy filePath, EvClose filePath])))
      | _ \<Rightarrow> (Inr [], [EvStat filePath]))"

text \<open>\<open>sameContent\<close> (lines 503 to 522).\<close>

definition sameContent ::
  "env \<Rightarrow> event list \<Rightarrow> string \<Rightarrow> string \<Rightarrow> (string + bool) \<times> event list" where
  "sameContent env h content filePath =
     (case computeFileMd5 env h filePath of
        (Inl e, evs) \<Rightarrow>
          (Inl (''Could not calculate checksum for '' @ filePath @ '': '' @ e), evs)
      | (Inr fileMd5, evs) \<Rightarrow> (Inr (fileMd5 = md5_hex env content), evs))"

text \<open>
  \<open>createStagingFile\<close> (lines 543 to 577): a temporary file beside the destination,
  the content written to it, then mode and owner of the destination copied when the
  destination can be inspected. \<open>onErr\<close> closes and removes the temporary file.
\<close>

definition createStagingFile ::
  "env \<Rightarrow> event list \<Rightarrow> string \<Rightarrow> string \<Rightarrow> (string + string) \<times> event list" where
  "createStagingFile env h content destFile =
     (let dir = filepath_Dir env destFile;
          pre = ''.'' @ filepath_Base env destFile @ ''-'';
          ev0 = [EvTempFile dir pre]
      in
      case ioutil_TempFile env h dir pre of
        Inl e \<Rightarrow> (Inl (''Could not create staging file for '' @ destFile @ '': '' @ e), ev0)
      | Inr fp \<Rightarrow>
     (let ev1 = ev0 @ [EvWrite fp content] in
      case file_Write env (h @ ev0) fp content of
        Some e \<Rightarrow>
          (Inl (''Could not write staging file for '' @ destFile @ '': '' @ e),
           ev1 @ [EvClose fp, EvRemove fp])
      | None \<Rightarrow>
     (let ev2 = ev1 @ [EvStat destFile] in
      case os_Stat env (h @ ev1) destFile of
        Stat_ok st \<Rightarrow>
          (let ev3 = ev2 @ [EvChmod fp (Mode st)] in
           case file_Chmod env (h @ ev2) fp (Mode st) of
             Some e \<Rightarrow>
               (Inl (''Failed to copy permissions from '' @ destFile @ '': '' @ e),
                ev3 @ [EvClose fp, EvRemove fp])
           | None \<Rightarrow>
               (case Sys st of
                  Some (uid, gid) \<Rightarrow>
                    (let ev4 = ev3 @ [EvChown fp uid gid] in
                     case file_Chown env (h @ ev3) fp uid gid of
                       Some e \<Rightarrow>
                         (Inl (''Failed to copy ownership: '' @ e),
                          ev4 @ [EvClose fp, EvRemove fp])
                     | None \<Rightarrow> (Inr fp, ev4 @ [EvClose fp]))
                | None \<Rightarrow> (Inr fp, ev3 @ [EvClose fp])))
      | _ \<Rightarrow> (Inr fp, ev2 @ [EvClose fp]))))"

text \<open>
  \<open>copyStagingToDestination\<close> (lines 313 to 349): a rename; when it fails with an
  error whose text contains \<^verbatim>\<open>device or resource busy\<close>, the staging file is read and
  written over the destination with the staging file's mode and owner.
\<close>

definition statError :: "stat \<Rightarrow> string option" where
  "statError st =
     (case st of Stat_ok fi \<Rightarrow> None | Stat_not_exist e \<Rightarrow> Some e | Stat_error e \<Rightarrow> Some e)"

definition copyStagingToDestination ::
  "env \<Rightarrow> event list \<Rightarrow> string \<Rightarrow> string \<Rightarrow> string option \<times> event list" where
  "copyStagingToDestination env h stagingPath destPath =
     (let ev0 = [EvRename stagingPath destPath] in
      case os_Rename env h stagingPath destPath of
        None \<Rightarrow> (None, ev0)
      | Some err \<Rightarrow>
          if \<not> strings_Contains err ''device or resource busy'' then (Some err, ev0)
          else
     (let ev1 = ev0 @ [EvReadFile stagingPath] in
      case ioutil_ReadFile env (h @ ev0) stagingPath of
        Inl e \<Rightarrow> (Some e, ev1)
      | Inr content \<Rightarrow>
     (let ev2 = ev1 @ [EvStat stagingPath] in
      case os_Stat env (h @ ev1) stagingPath of
        Stat_ok sfi \<Rightarrow>
          (let ev3 = ev2 @ [EvWriteFile destPath content (Mode sfi)] in
           case ioutil_WriteFile env (h @ ev2) destPath content (Mode sfi) of
             Some e \<Rightarrow> (Some e, ev3)
           | None \<Rightarrow>
               (case Sys sfi of
                  Some (uid, gid) \<Rightarrow>
                    (os_Chown env (h @ ev3) destPath uid gid, ev3 @ [EvChown destPath uid gid])
                | None \<Rightarrow> (None, ev3)))
      | st \<Rightarrow> (statError st, ev2))))"

text \<open>
  \<open>processTemplate\<close> (lines 121 to 205). \<open>t\<close> is the function's own copy of the
  template, so the assignment to \<open>t.Staging\<close> is seen by the command phase of this call
  only. The deferred removal of the staging file runs when the function returns.
\<close>

definition processTemplate ::
  "env \<Rightarrow> event list \<Rightarrow> TemplateContext \<Rightarrow> Template \<Rightarrow> outcome \<times> event list" where
  "processTemplate env h ctx t =
     (if Source t \<noteq> [] \<and> Dest t \<noteq> [] then
        (case renderSource env h ctx t of
           (Inl fatal, ev1) \<Rightarrow> (Exit_fatal fatal, ev1)
         | (Inr content, ev1) \<Rightarrow>
        if Dest t = [] then (Return_nil, ev1 @ [EvStdout content])
        else
        (case sameContent env (h @ ev1) content (Dest t) of
           (Inl e, ev2) \<Rightarrow>
             (Return_error (''Could not compare content for '' @ Dest t @ '': '' @ e),
              ev1 @ ev2)
         | (Inr same, ev2) \<Rightarrow>
        if same then (Return_nil, ev1 @ ev2)
        else
        (case createStagingFile env (h @ ev1 @ ev2) content (Dest t) of
           (Inl e, ev3) \<Rightarrow> (Return_error e, ev1 @ ev2 @ ev3)
         | (Inr stagingFile, ev3) \<Rightarrow>
        (case copyStagingToDestination env (h @ ev1 @ ev2 @ ev3) stagingFile (Dest t) of
           (Some e, ev4) \<Rightarrow>
             (Return_error (''Could not write destination file '' @ Dest t @ '': '' @ e),
              ev1 @ ev2 @ ev3 @ ev4)
         | (None, ev4) \<Rightarrow>
             (let ev5 = commandPhase env (h @ ev1 @ ev2 @ ev3 @ ev4)
                          (t\<lparr>Staging := stagingFile\<rparr>)
              in (Return_nil, ev1 @ ev2 @ ev3 @ ev4 @ ev5 @ [EvRemove stagingFile]))))))
      else (Return_nil, commandPhase env h t))"

text \<open>The loop of \<open>poll\<close> over the configured templates (lines 106 to 110).\<close>

fun templateLoop ::
  "env \<Rightarrow> event list \<Rightarrow> TemplateContext \<Rightarrow> Template list \<Rightarrow> outcome \<times> event list" where
  "templateLoop env h ctx [] = (Return_nil, [])"
| "templateLoop env h ctx (tmpl # rest) =
     (case processTemplate env h ctx tmpl of
        (Return_nil, ev) \<Rightarrow>
          (case templateLoop env (h @ ev) ctx rest of (res, ev') \<Rightarrow> (res, ev @ ev'))
      | (res, ev) \<Rightarrow> (res, ev))"

text \<open>\<open>poll\<close> (lines 83 to 119): the state of the runner is its last seen version.\<close>

record runner =
  Config :: Config
  Version :: string

definition poll :: "env \<Rightarrow> event list \<Rightarrow> runner \<Rightarrow> (outcome \<times> runner) \<times> event list" where
  "poll env h r =
     (case GetVersion env h of
        Inl e \<Rightarrow>
          ((Return_error (''Failed to get Metadata version: '' @ e), r),
           [EvGetVersion, EvSleep 2])
      | Inr newVersion \<Rightarrow>
          if Version r = newVersion then ((Return_nil, r), [EvGetVersion])
          else
            (let r' = r\<lparr>Version := newVersion\<rparr> in
             case createContext env (h @ [EvGetVersion]) of
               (Inl e, ev1) \<Rightarrow>
                 ((Return_error (''Failed to create context from Rancher Metadata: '' @ e), r'),
                  EvGetVersion # ev1 @ [EvSleep 2])
             | (Inr ctx, ev1) \<Rightarrow>
                 (case templateLoop env (h @ EvGetVersion # ev1) ctx
                         (Templates (runner.Config r)) of
                    (res, ev2) \<Rightarrow> ((res, r'), EvGetVersion # ev1 @ ev2))))"

text \<open>
  \<open>Run\<close> (lines 60 to 81). In one-shot mode it is one call of \<open>poll\<close>. In interval
  mode it is a loop that ends only on a signal, so it is a partial function: \<open>None\<close>
  is the run that never returns. Here the history is threaded through, and the result
  carries the whole history at the end.
\<close>

partial_function (option) pollLoop ::
  "env \<Rightarrow> runner \<Rightarrow> event list \<Rightarrow> (outcome \<times> runner \<times> event list) option" where
  "pollLoop env r h =
     (let res = fst (fst (poll env h r));
          r' = snd (fst (poll env h r));
          ev = snd (poll env h r)
      in case res of
           Exit_fatal m \<Rightarrow> Some (Exit_fatal m, r', h @ ev)
         | Return_error e \<Rightarrow>
             (case select_wakeup env (h @ ev @ [EvLogError e]) of
                Tick \<Rightarrow> pollLoop env r' (h @ ev @ [EvLogError e, EvTick])
              | Signal s \<Rightarrow> Some (Return_nil, r', h @ ev @ [EvLogError e, EvSignal s]))
         | Return_nil \<Rightarrow>
             (case select_wakeup env (h @ ev) of
                Tick \<Rightarrow> pollLoop env r' (h @ ev @ [EvTick])
              | Signal s \<Rightarrow> Some (Return_nil, r', h @ ev @ [EvSignal s])))"

definition Run :: "env \<Rightarrow> runner \<Rightarrow> event list \<Rightarrow> (outcome \<times> runner \<times> event list) option" where
  "Run env r h =
     (if OneTime (runner.Config r) then
        (case poll env h r of ((res, r'), ev) \<Rightarrow> Some (res, r', h @ ev))
      else pollLoop env r h)"

section \<open>Vocabulary of the properties\<close>

text \<open>Kinds of events, and the commands that the slots of a template yield.\<close>

definition is_check :: "event \<Rightarrow> bool" where
  "is_check e = (case e of EvCheck c \<Rightarrow> True | _ \<Rightarrow> False)"

definition is_notify :: "event \<Rightarrow> bool" where
  "is_notify e = (case e of EvNotify c v \<Rightarrow> True | _ \<Rightarrow> False)"

definition checkCommand :: "Template \<Rightarrow> string \<Rightarrow> string" where
  "checkCommand t parsedCheck =
     strings_ReplaceAll (effectiveCheck t parsedCheck) ''{{staging}}'' (Staging t)"

definition containerCheck :: "Template \<Rightarrow> Container \<Rightarrow> string" where
  "containerCheck t c = fst (parseCmdTemplate c (CheckCmd t))"

definition containerNotify :: "Template \<Rightarrow> Container \<Rightarrow> string" where
  "containerNotify t c = fst (parseCmdTemplate c (NotifyCmd t))"

text \<open>
  Events that write: the staging file and everything done to it, the destination,
  standard output. File events: those and every read of the rendering and comparing
  steps.
\<close>

definition is_write :: "event \<Rightarrow> bool" where
  "is_write e =
     (case e of EvTempFile d n \<Rightarrow> True | EvWrite p c \<Rightarrow> True | EvChmod p m \<Rightarrow> True
      | EvChown p u g \<Rightarrow> True | EvRemove p \<Rightarrow> True | EvRename a b \<Rightarrow> True
      | EvWriteFile p c m \<Rightarrow> True | EvStdout c \<Rightarrow> True | _ \<Rightarrow> False)"

definition is_file_event :: "event \<Rightarrow> bool" where
  "is_file_event e =
     (case e of EvStat p \<Rightarrow> True | EvReadFile p \<Rightarrow> True | EvRender p \<Rightarrow> True
      | EvOpen p \<Rightarrow> True | EvCopy p \<Rightarrow> True | EvClose p \<Rightarrow> True | _ \<Rightarrow> is_write e)"

text \<open>
  What processing every template of a list would perform if no result ended the loop:
  each template in turn, the history growing by the events of the one before. Written
  after the words of the specification, to be compared with \<open>templateLoop\<close>.
\<close>

fun spec_processEvery ::
  "env \<Rightarrow> event list \<Rightarrow> TemplateContext \<Rightarrow> Template list \<Rightarrow> event list" where
  "spec_processEvery env h ctx [] = []"
| "spec_processEvery env h ctx (t # ts) =
     (let ev = snd (processTemplate env h ctx t)
      in ev @ spec_processEvery env (h @ ev) ctx ts)"

text \<open>
  Every template of a list returns \<open>nil\<close> when processed in turn, the history growing
  by the events of the one before: no template returns an error or ends the process.
\<close>

fun spec_allNil :: "env \<Rightarrow> event list \<Rightarrow> TemplateContext \<Rightarrow> Template list \<Rightarrow> bool" where
  "spec_allNil env h ctx [] = True"
| "spec_allNil env h ctx (t # ts) =
     (fst (processTemplate env h ctx t) = Return_nil
      \<and> spec_allNil env (h @ snd (processTemplate env h ctx t)) ctx ts)"

text \<open>
  The two selections the specification describes: the containers that carry a label
  key, and those that carry a label key with a value. \<open>labelMatches\<close> is the test the
  loops of \<open>getLabelGroup\<close> amount to on a label map without repeated keys.
\<close>

definition spec_hasKey :: "string \<Rightarrow> Container \<Rightarrow> bool" where
  "spec_hasKey name c = (name \<in> fst ` set (Container.Labels c))"

definition spec_hasValue :: "string \<Rightarrow> string \<Rightarrow> Container \<Rightarrow> bool" where
  "spec_hasValue name value c = ((name, value) \<in> set (Container.Labels c))"

definition labelMatches :: "string \<Rightarrow> string \<Rightarrow> Container \<Rightarrow> bool" where
  "labelMatches n v c =
     (case map_of (Container.Labels c) n of Some val \<Rightarrow> v = [] \<or> val = v | None \<Rightarrow> False)"

text \<open>
  Commands as the specification reads them: literal text and tokens \<^verbatim>\<open>{{key}}\<close>.
  \<open>render\<close> is the command string. A text is inert when it holds no two opening
  braces in a row and does not end in an opening brace, so that no token can begin in
  it or across its end.
\<close>

datatype segment = Lit string | Tok string

definition tok :: "string \<Rightarrow> string" where
  "tok k = ''{{'' @ k @ ''}}''"

fun segment_text :: "segment \<Rightarrow> string" where
  "segment_text (Lit s) = s"
| "segment_text (Tok k) = tok k"

definition render :: "segment list \<Rightarrow> string" where
  "render segs = concat (map segment_text segs)"

fun inert :: "string \<Rightarrow> bool" where
  "inert [] = True"
| "inert [c] = (c \<noteq> CHR ''{'')"
| "inert (a # b # s) = (\<not> (a = CHR ''{'' \<and> b = CHR ''{'') \<and> inert (b # s))"

text \<open>
  What a token stands for, after the words of the specification: with one leading
  dot of the key stripped, \<open>Labels.\<close> followed by a label key is that label's value
  (empty when the container has no such label), the name of a string attribute is its
  value, \<open>Labels\<close> and \<open>Host\<close> (not strings) are the empty string, and any other key
  has no value: its token stays. \<open>spec_substitute\<close> replaces one segment.
\<close>

definition stripDot :: "string \<Rightarrow> string" where
  "stripDot k = (case k of c # rest \<Rightarrow> if c = CHR ''.'' then rest else k | [] \<Rightarrow> k)"

definition spec_tokenValue :: "Container \<Rightarrow> string \<Rightarrow> string option" where
  "spec_tokenValue c k =
     (let key = stripDot k in
      if prefix ''Labels.'' key then Some (labelValue (Container.Labels c) (drop 7 key))
      else if key = ''Name'' then Some (Container.Name c)
      else if key = ''Address'' then Some (Container.Address c)
      else if key = ''Stack'' then Some (Container.Stack c)
      else if key = ''Service'' then Some (Container.Service c)
      else if key = ''Health'' then Some (Container.Health c)
      else if key = ''State'' then Some (Container.State c)
      else if key = ''Labels'' \<or> key = ''Host'' then Some []
      else None)"

fun spec_substitute :: "Container \<Rightarrow> segment \<Rightarrow> string" where
  "spec_substitute c (Lit s) = s"
| "spec_substitute c (Tok k) = (case spec_tokenValue c k of Some v \<Rightarrow> v | None \<Rightarrow> tok k)"

text \<open>
  The commands and containers the substitution theorem is about: literal text is
  inert, keys are made of the characters the regular expression admits and contain
  \<open>Labels.\<close> at their head only, and the container's string attributes and label values
  are inert.
\<close>

fun wf_segment :: "segment \<Rightarrow> bool" where
  "wf_segment (Lit s) = inert s"
| "wf_segment (Tok k) =
     (list_all token_char k \<and>
      (strings_Contains (stripDot k) ''Labels.'' \<longrightarrow> prefix ''Labels.'' (stripDot k)))"

definition inert_values :: "Container \<Rightarrow> bool" where
  "inert_values c =
     (inert (Container.Name c) \<and> inert (Container.Address c) \<and> inert (Container.Stack c)
      \<and> inert (Container.Service c) \<and> inert (Container.Health c)
      \<and> inert (Container.State c) \<and> list_all (\<lambda>p. inert (snd p)) (Container.Labels c))"

text \<open>
  The keys of the tokens of a command in order, and the command after the tokens with
  keys in \<open>S\<close> have been replaced (the state of the substitution loop).
\<close>

fun segment_keys :: "segment list \<Rightarrow> string list" where
  "segment_keys [] = []"
| "segment_keys (Lit s # segs) = segment_keys segs"
| "segment_keys (Tok k # segs) = k # segment_keys segs"

fun resolve :: "Container \<Rightarrow> string set \<Rightarrow> segment \<Rightarrow> segment" where
  "resolve c S (Lit s) = Lit s"
| "resolve c S (Tok k) =
     (if k \<in> S then (case spec_tokenValue c k of Some v \<Rightarrow> Lit v | None \<Rightarrow> Tok k)
      else Tok k)"

section \<open>Example inputs\<close>

text \<open>
  A quiet environment: the metadata service answers with version \<open>v1\<close> and an empty
  topology, no file exists, every file operation and every command succeeds, the
  template engine returns the template text, and the first wake-up is a signal.
\<close>

definition metaSelf0 :: MetaContainer where
  "metaSelf0 = \<lparr> MetaContainer.Name = ''gen'', MetaContainer.PrimaryIp = ''10.0.0.9'',
     MetaContainer.StackName = ''infra'', MetaContainer.ServiceName = ''gen'',
     MetaContainer.HealthState = ''healthy'', MetaContainer.State = ''running'',
     MetaContainer.Labels = [], MetaContainer.HostUUID = ''h1'' \<rparr>"

definition env0 :: env where
  "env0 = \<lparr> GetVersion = (\<lambda>h. Inr ''v1''),
     GetServices = (\<lambda>h. Inr []),
     GetContainers = (\<lambda>h. Inr []),
     GetHosts = (\<lambda>h. Inr []),
     GetSelfContainer = (\<lambda>h. Inr metaSelf0),
     os_Stat = (\<lambda>h p. Stat_not_exist ''no such file or directory''),
     ioutil_ReadFile = (\<lambda>h p. Inl ''no such file or directory''),
     template_Parse = (\<lambda>n s. None),
     template_Execute = (\<lambda>ctx n s. Inr s),
     filepath_Base = (\<lambda>p. last (strings_Split p CHR ''/'')),
     filepath_Dir = (\<lambda>p. ''/etc''),
     md5_hex = (\<lambda>s. ''md5:'' @ s),
     os_Open = (\<lambda>h p. None),
     io_Copy = (\<lambda>h p. Inr []),
     ioutil_TempFile = (\<lambda>h d n. Inr (d @ ''/'' @ n @ ''001'')),
     file_Write = (\<lambda>h p c. None),
     file_Chmod = (\<lambda>h p m. None),
     file_Chown = (\<lambda>h p u g. None),
     os_Rename = (\<lambda>h a b. None),
     ioutil_WriteFile = (\<lambda>h p c m. None),
     os_Chown = (\<lambda>h p u g. None),
     CombinedOutput = (\<lambda>h c. None),
     select_wakeup = (\<lambda>h. Signal ''terminated'') \<rparr>"

definition mkContainer :: "string \<Rightarrow> LabelMap \<Rightarrow> Container" where
  "mkContainer n ls = \<lparr> Container.Name = n, Container.Address = ''10.0.0.1'',
     Container.Stack = ''app'', Container.Service = ''web'', Container.Health = ''healthy'',
     Container.State = ''running'', Container.Labels = ls, Container.Host = zeroHost \<rparr>"

definition mkTemplate :: "string \<Rightarrow> string \<Rightarrow> string \<Rightarrow> string \<Rightarrow> string \<Rightarrow> Template" where
  "mkTemplate src dst chk ntf lbl = \<lparr> Source = src, Dest = dst, CheckCmd = chk,
     NotifyCmd = ntf, NotifyLbl = lbl, NotifyOutput = False, Staging = [] \<rparr>"

text \<open>An environment in which the command \<open>check web2\<close> fails and every other one succeeds.\<close>

definition env_check_fails :: env where
  "env_check_fails =
     env0\<lparr>CombinedOutput := (\<lambda>h c. if c = ''check web2'' then Some ''exit status 1'' else None)\<rparr>"

text \<open>
  An environment in which every file exists and both the template source and the
  destination hold \<open>hello\<close>; the snapshot of the quiet environment; two templates.
\<close>

definition ctx0 :: TemplateContext where
  "ctx0 = buildContext [] [] [] metaSelf0"

definition fileInfo0 :: FileInfo where
  "fileInfo0 = \<lparr> Mode = 420, Sys = Some (0, 0) \<rparr>"

definition env_same :: env where
  "env_same = env0\<lparr>os_Stat := (\<lambda>h p. Stat_ok fileInfo0),
                  ioutil_ReadFile := (\<lambda>h p. Inr ''hello''),
                  io_Copy := (\<lambda>h p. Inr ''hello'')\<rparr>"

definition tmpl_app :: Template where
  "tmpl_app = mkTemplate ''/etc/app.tmpl'' ''/etc/app.conf'' ''check'' ''reload'' []"

definition tmpl_print :: Template where
  "tmpl_print = mkTemplate ''/etc/app.tmpl'' [] ''check {{staging}}'' ''reload'' []"

text \<open>
  A template of commands only, and one with a source and no destination; a
  configuration with two templates; the runner as \<open>NewRunner\<close> makes it, and one that
  has seen version \<open>v1\<close>. An environment whose first fetch of the services fails and
  whose later ones succeed, with one timer tick before the signal; one in which the
  destination cannot be opened.
\<close>

definition tmpl_reload :: Template where
  "tmpl_reload = mkTemplate [] [] ''check2'' ''reload2'' []"

definition tmpl_stdout :: Template where
  "tmpl_stdout = mkTemplate ''/etc/motd.tmpl'' [] ''lint'' ''announce'' []"

definition cfg0 :: Config where
  "cfg0 = \<lparr> Templates = [tmpl_app, tmpl_reload], OneTime = False, Interval = 5 \<rparr>"

definition runner_init :: runner where
  "runner_init = \<lparr> runner.Config = cfg0, Version = ''init'' \<rparr>"

definition env_ctx_once :: env where
  "env_ctx_once = env_same\<lparr>
     GetServices := (\<lambda>h. if EvGetServices \<in> set h then Inr [] else Inl ''connection refused''),
     select_wakeup := (\<lambda>h. if EvTick \<in> set h then Signal ''terminated'' else Tick)\<rparr>"

definition env_cmp_fails :: env where
  "env_cmp_fails = env_same\<lparr>os_Open := (\<lambda>h p. Some ''permission denied'')\<rparr>"

definition fetches :: "event list" where
  "fetches = [EvGetServices, EvGetContainers, EvGetHosts, EvGetSelfContainer]"

definition runner_seen :: runner where
  "runner_seen = \<lparr> runner.Config = cfg0, Version = ''v1'' \<rparr>"

definition ctx_error :: string where
  "ctx_error = ''Failed to create context from Rancher Metadata: connection refused''"

definition cmp_error :: string where
  "cmp_error = ''Could not compare content for /etc/app.conf: '' @
               ''Could not calculate checksum for /etc/app.conf: permission denied''"

definition app_render_events :: "event list" where
  "app_render_events =
     [EvStat ''/etc/app.tmpl'', EvReadFile ''/etc/app.tmpl'', EvRender ''/etc/app.tmpl'']"

text \<open>A topology of three containers with labels, and its snapshot.\<close>

definition mkMeta :: "string \<Rightarrow> LabelMap \<Rightarrow> MetaContainer" where
  "mkMeta n ls = \<lparr> MetaContainer.Name = n, MetaContainer.PrimaryIp = ''10.0.0.1'',
     MetaContainer.StackName = ''app'', MetaContainer.ServiceName = ''web'',
     MetaContainer.HealthState = ''healthy'', MetaContainer.State = ''running'',
     MetaContainer.Labels = ls, MetaContainer.HostUUID = ''h1'' \<rparr>"

definition env_roles :: env where
  "env_roles = env0\<lparr>GetContainers := (\<lambda>h. Inr
     [mkMeta ''web1'' [(''role'', ''worker'')],
      mkMeta ''web2'' [(''tier'', ''front''), (''role'', ''leader'')],
      mkMeta ''db1'' [(''tier'', ''db'')]])\<rparr>"

definition containers_roles :: "Container list" where
  "containers_roles =
     [mkContainer ''web1'' [(''role'', ''worker'')],
      mkContainer ''web2'' [(''tier'', ''front''), (''role'', ''leader'')],
      mkContainer ''db1'' [(''tier'', ''db'')]]"

definition ctx_roles :: TemplateContext where
  "ctx_roles = \<lparr> TemplateContext.Services = [], TemplateContext.Containers = containers_roles,
     TemplateContext.Hosts = [],
     TemplateContext.Self = \<lparr> Self.Stack = ''infra'', Self.Service = ''gen'',
                              Self.HostUUID = ''h1'' \<rparr> \<rparr>"

text \<open>Two containers and two commands.\<close>

definition container_web1 :: Container where
  "container_web1 = mkContainer ''web1'' [(''role'', ''worker'')]"

definition segs_check :: "segment list" where
  "segs_check = [Lit ''check '', Tok ''Name'', Lit '' '', Tok ''.Address'', Lit '' '',
                 Tok ''Labels.role'', Lit '' '', Tok ''staging'', Lit '' ${HOME} '',
                 Tok ''Host'']"

definition container_greet :: Container where
  "container_greet = mkContainer ''web1'' [(''greeting'', ''hello {{Name}}'')]"

definition segs_greet :: "segment list" where
  "segs_greet = [Lit ''echo '', Tok ''Labels.greeting'', Lit '' from '', Tok ''Name'']"

text \<open>
  An environment in which every rename fails as across file systems, and two hosts
  with the same UUID.
\<close>

definition env_crossdev :: env where
  "env_crossdev = env_same\<lparr>os_Rename := (\<lambda>h a b. Some ''rename: device or resource busy'')\<rparr>"

definition hostA :: Host where
  "hostA = \<lparr> Host.UUID = ''h1'', Host.Name = ''alpha'', Host.Address = ''192.168.0.1'',
     Host.Hostname = ''alpha.local'', Host.Labels = [] \<rparr>"

definition hostB :: Host where
  "hostB = \<lparr> Host.UUID = ''h1'', Host.Name = ''beta'', Host.Address = ''192.168.0.2'',
     Host.Hostname = ''beta.local'', Host.Labels = [] \<rparr>"

text \<open>
  A template of commands only whose staging path is set; a configuration of three
  templates, the second of which is the one with a destination; a runner of it in
  interval mode and one in one-shot mode.
\<close>

definition tmpl_preset :: Template where
  "tmpl_preset = \<lparr> Source = [], Dest = [], CheckCmd = ''check {{staging}}'',
     NotifyCmd = ''reload'', NotifyLbl = [], NotifyOutput = False, Staging = ''preset'' \<rparr>"

definition cfg_three :: Config where
  "cfg_three = \<lparr> Templates = [tmpl_reload, tmpl_app, tmpl_stdout], OneTime = False,
                 Interval = 5 \<rparr>"

definition runner_interval :: runner where
  "runner_interval = \<lparr> runner.Config = cfg_three, Version = ''init'' \<rparr>"

definition runner_oneshot :: runner where
  "runner_oneshot = \<lparr> runner.Config = cfg_three\<lparr>OneTime := True\<rparr>, Version = ''init'' \<rparr>"

text \<open>
  A topology of three workers and one leader, in an environment where the source
  renders to \<open>hello\<close>, the destination holds \<open>old\<close>, and every command that starts with
  \<open>check web2\<close> fails; its snapshot and its workers; a template of commands only that
  fans out over the workers, and one that is also written; the staging file of the
  latter and the events of comparing and staging it.
\<close>

definition env_fanout :: env where
  "env_fanout = env0\<lparr>
     GetContainers := (\<lambda>h. Inr
       [mkMeta ''web1'' [(''role'', ''worker'')],
        mkMeta ''db1'' [(''role'', ''leader'')],
        mkMeta ''web2'' [(''role'', ''worker'')],
        mkMeta ''web3'' [(''role'', ''worker'')]]),
     os_Stat := (\<lambda>h p. Stat_ok fileInfo0),
     ioutil_ReadFile := (\<lambda>h p. Inr ''hello''),
     io_Copy := (\<lambda>h p. Inr ''old''),
     CombinedOutput := (\<lambda>h c. if take 10 c = ''check web2'' then Some ''exit status 1''
                                else None)\<rparr>"

definition workers :: "Container list" where
  "workers = [mkContainer ''web1'' [(''role'', ''worker'')],
              mkContainer ''web2'' [(''role'', ''worker'')],
              mkContainer ''web3'' [(''role'', ''worker'')]]"

definition ctx_fanout :: TemplateContext where
  "ctx_fanout = \<lparr> TemplateContext.Services = [],
     TemplateContext.Containers =
       [mkContainer ''web1'' [(''role'', ''worker'')],
        mkContainer ''db1'' [(''role'', ''leader'')],
        mkContainer ''web2'' [(''role'', ''worker'')],
        mkContainer ''web3'' [(''role'', ''worker'')]],
     TemplateContext.Hosts = [],
     TemplateContext.Self = \<lparr> Self.Stack = ''infra'', Self.Service = ''gen'',
                              Self.HostUUID = ''h1'' \<rparr> \<rparr>"

definition tmpl_fanout :: Template where
  "tmpl_fanout = mkTemplate [] [] ''check {{Name}}'' ''reload {{Name}}'' ''role:worker''"

definition tmpl_fanout_file :: Template where
  "tmpl_fanout_file = mkTemplate ''/etc/app.tmpl'' ''/etc/app.conf''
     ''check {{Name}} {{staging}}'' ''reload {{Name}}'' ''role:worker''"

definition staging_app :: string where
  "staging_app = ''/etc/.app.conf-001''"

definition app_staging_events :: "event list" where
  "app_staging_events =
     [EvTempFile ''/etc'' ''.app.conf-'', EvWrite staging_app ''hello'',
      EvStat ''/etc/app.conf'', EvChmod staging_app 420, EvChown staging_app 0 0,
      EvClose staging_app]"

definition app_compare_events :: "event list" where
  "app_compare_events =
     [EvStat ''/etc/app.conf'', EvOpen ''/etc/app.conf'', EvCopy ''/etc/app.conf'',
      EvClose ''/etc/app.conf'']"

section \<open>Properties of the command orchestrator\<close>

lemma runCheckNotify_events:
  "snd (runCheckNotify env h t pc pn) =
     (if effectiveCheck t pc = [] then [] else [EvCheck (checkCommand t pc)]) @
     (if effectiveNotify t pn \<noteq> [] \<and>
         (effectiveCheck t pc = [] \<or> CombinedOutput env h (checkCommand t pc) = None)
      then [EvNotify (effectiveNotify t pn) (NotifyOutput t)] else [])"
  by (simp add: runCheckNotify_def check_def notify_def checkCommand_def Let_def
           split: option.splits)

lemma notifyLoop_append:
  "notifyLoop env h t (xs @ ys) =
     notifyLoop env h t xs @ notifyLoop env (h @ notifyLoop env h t xs) t ys"
  by (induction xs arbitrary: h) (simp_all add: Let_def)

lemma notifyLoop_checks:
  "filter is_check (notifyLoop env h t cs) =
     map (\<lambda>c. EvCheck (checkCommand t (containerCheck t c)))
       (filter (\<lambda>c. effectiveCheck t (containerCheck t c) \<noteq> []) cs)"
  by (induction cs arbitrary: h)
     (simp_all add: Let_def runCheckNotify_events is_check_def containerCheck_def)

lemma notifyLoop_nth:
  assumes "i < length cs"
  shows "notifyLoop env h t cs =
     notifyLoop env h t (take i cs) @
     snd (runCheckNotify env (h @ notifyLoop env h t (take i cs)) t
            (containerCheck t (cs ! i)) (containerNotify t (cs ! i))) @
     notifyLoop env (h @ notifyLoop env h t (take (Suc i) cs)) t (drop (Suc i) cs)"
proof -
  have "cs = take i cs @ (cs ! i) # drop (Suc i) cs"
    using assms by (simp add: id_take_nth_drop)
  then have "notifyLoop env h t cs = notifyLoop env h t (take i cs @ (cs ! i) # drop (Suc i) cs)"
    by simp
  also have "\<dots> = notifyLoop env h t (take i cs) @
     notifyLoop env (h @ notifyLoop env h t (take i cs)) t ((cs ! i) # drop (Suc i) cs)"
    by (rule notifyLoop_append)
  finally show ?thesis
    using assms
    by (simp add: Let_def containerCheck_def containerNotify_def take_Suc_conv_app_nth
          notifyLoop_append)
qed

text \<open>
  Claim C8. One call of \<open>runCheckNotify\<close> performs exactly these events: the check
  command, unless the check slot is empty; then the notify command, if and only if
  the notify slot is not empty and the check slot is empty or the check command
  succeeded. So with a notify command given, it runs if and only if the check is
  empty or succeeds; a failing check skips its notify; and an empty slot runs nothing.
  The slot is the per-container command when there is one, else the template's.
\<close>

theorem runCheckNotify_check_gates_notify:
  "snd (runCheckNotify env h t parsedCheck parsedNotify) =
     (if effectiveCheck t parsedCheck = [] then []
      else [EvCheck (checkCommand t parsedCheck)]) @
     (if effectiveNotify t parsedNotify \<noteq> [] \<and>
         (effectiveCheck t parsedCheck = []
          \<or> CombinedOutput env h (checkCommand t parsedCheck) = None)
      then [EvNotify (effectiveNotify t parsedNotify) (NotifyOutput t)] else [])
   \<and> (effectiveNotify t parsedNotify \<noteq> [] \<longrightarrow>
        (filter is_notify (snd (runCheckNotify env h t parsedCheck parsedNotify)) \<noteq> []) =
        (effectiveCheck t parsedCheck = []
         \<or> CombinedOutput env h (checkCommand t parsedCheck) = None))
   \<and> (effectiveCheck t parsedCheck \<noteq> []
        \<and> CombinedOutput env h (checkCommand t parsedCheck) \<noteq> None \<longrightarrow>
        filter is_notify (snd (runCheckNotify env h t parsedCheck parsedNotify)) = [])
   \<and> (effectiveCheck t parsedCheck = [] \<longrightarrow>
        filter is_check (snd (runCheckNotify env h t parsedCheck parsedNotify)) = [])
   \<and> (effectiveNotify t parsedNotify = [] \<longrightarrow>
        filter is_notify (snd (runCheckNotify env h t parsedCheck parsedNotify)) = [])"
proof (intro conjI impI)
  show "snd (runCheckNotify env h t parsedCheck parsedNotify) =
     (if effectiveCheck t parsedCheck = [] then []
      else [EvCheck (checkCommand t parsedCheck)]) @
     (if effectiveNotify t parsedNotify \<noteq> [] \<and>
         (effectiveCheck t parsedCheck = []
          \<or> CombinedOutput env h (checkCommand t parsedCheck) = None)
      then [EvNotify (effectiveNotify t parsedNotify) (NotifyOutput t)] else [])"
    by (rule runCheckNotify_events)
next
  assume "effectiveNotify t parsedNotify \<noteq> []"
  then show "(filter is_notify (snd (runCheckNotify env h t parsedCheck parsedNotify)) \<noteq> []) =
        (effectiveCheck t parsedCheck = []
         \<or> CombinedOutput env h (checkCommand t parsedCheck) = None)"
    by (simp add: runCheckNotify_events is_notify_def)
next
  assume "effectiveCheck t parsedCheck \<noteq> []
        \<and> CombinedOutput env h (checkCommand t parsedCheck) \<noteq> None"
  then show "filter is_notify (snd (runCheckNotify env h t parsedCheck parsedNotify)) = []"
    by (simp add: runCheckNotify_events is_notify_def)
next
  assume "effectiveCheck t parsedCheck = []"
  then show "filter is_check (snd (runCheckNotify env h t parsedCheck parsedNotify)) = []"
    by (simp add: runCheckNotify_events is_check_def)
next
  assume "effectiveNotify t parsedNotify = []"
  then show "filter is_notify (snd (runCheckNotify env h t parsedCheck parsedNotify)) = []"
    by (simp add: runCheckNotify_events is_notify_def)
qed

theorem runCheckNotify_check_gates_notify_witness:
  "snd (runCheckNotify env_check_fails [] (mkTemplate [] [] ''check web2'' ''reload'' []) [] [])
     = [EvCheck ''check web2'']
   \<and> snd (runCheckNotify env_check_fails [] (mkTemplate [] [] ''check web1'' ''reload'' []) [] [])
     = [EvCheck ''check web1'', EvNotify ''reload'' False]
   \<and> snd (runCheckNotify env_check_fails [] (mkTemplate [] [] [] ''reload'' []) [] [])
     = [EvNotify ''reload'' False]
   \<and> snd (runCheckNotify env_check_fails [] (mkTemplate [] [] ''check web1'' [] []) [] [])
     = [EvCheck ''check web1'']"
  using runCheckNotify_check_gates_notify [THEN conjunct1,
          of env_check_fails "[]" "mkTemplate [] [] ''check web2'' ''reload'' []" "[]" "[]"]
        runCheckNotify_check_gates_notify [THEN conjunct1,
          of env_check_fails "[]" "mkTemplate [] [] ''check web1'' ''reload'' []" "[]" "[]"]
        runCheckNotify_check_gates_notify [THEN conjunct1,
          of env_check_fails "[]" "mkTemplate [] [] [] ''reload'' []" "[]" "[]"]
        runCheckNotify_check_gates_notify [THEN conjunct1,
          of env_check_fails "[]" "mkTemplate [] [] ''check web1'' [] []" "[]" "[]"]
  by (simp add: env_check_fails_def env0_def mkTemplate_def effectiveCheck_def
        effectiveNotify_def checkCommand_def)

section \<open>Properties of template processing\<close>

lemma createContext_events:
  "filter (\<lambda>e. is_file_event e \<or> is_check e \<or> is_notify e) (snd (createContext env h)) = []"
  by (simp add: createContext_def is_file_event_def is_write_def is_check_def is_notify_def
        split: sum.splits)

lemma getLabelGroup_events:
  "filter (\<lambda>e. is_file_event e \<or> is_check e \<or> is_notify e) (snd (getLabelGroup env h l)) = []"
proof (cases "createContext env h")
  case (Pair r evs)
  with createContext_events [of env h]
  have "filter (\<lambda>e. is_file_event e \<or> is_check e \<or> is_notify e) evs = []" by simp
  with Pair show ?thesis
    by (cases r)
       (simp_all add: getLabelGroup_def Let_def is_file_event_def is_write_def is_check_def
          is_notify_def)
qed

lemma commandPhase_fanout:
  "NotifyLbl t \<noteq> [] \<Longrightarrow>
     commandPhase env h t =
       snd (getLabelGroup env h (NotifyLbl t)) @
       notifyLoop env (h @ snd (getLabelGroup env h (NotifyLbl t))) t
         (fst (fst (getLabelGroup env h (NotifyLbl t))))"
  by (simp add: commandPhase_def split: prod.splits)

lemma runCheckNotify_no_files:
  "filter is_file_event (snd (runCheckNotify env h t pc pn)) = []"
  by (simp add: runCheckNotify_events is_file_event_def is_write_def)

lemma notifyLoop_no_files: "filter is_file_event (notifyLoop env h t cs) = []"
  by (induction cs arbitrary: h) (simp_all add: Let_def runCheckNotify_no_files)

lemma getLabelGroup_no_files: "filter is_file_event (snd (getLabelGroup env h l)) = []"
  using getLabelGroup_events [of env h l] by (simp add: filter_empty_conv)

lemma commandPhase_no_files: "filter is_file_event (commandPhase env h t) = []"
proof (cases "NotifyLbl t = []")
  case True
  then show ?thesis by (simp add: commandPhase_def runCheckNotify_no_files)
next
  case False
  then show ?thesis
    by (simp add: commandPhase_fanout getLabelGroup_no_files notifyLoop_no_files)
qed

lemma commandPhase_checks:
  "filter is_check (commandPhase env h t) =
     (if NotifyLbl t = [] then
        (if CheckCmd t = [] then [] else [EvCheck (checkCommand t [])])
      else map (\<lambda>c. EvCheck (checkCommand t (containerCheck t c)))
             (filter (\<lambda>c. effectiveCheck t (containerCheck t c) \<noteq> [])
                (fst (fst (getLabelGroup env h (NotifyLbl t))))))"
proof (cases "NotifyLbl t = []")
  case True
  then show ?thesis
    by (simp add: commandPhase_def runCheckNotify_events is_check_def effectiveCheck_def)
next
  case False
  have "filter is_check (snd (getLabelGroup env h (NotifyLbl t))) = []"
    using getLabelGroup_events [of env h "NotifyLbl t"] by (simp add: filter_empty_conv)
  with False show ?thesis
    by (simp add: commandPhase_fanout notifyLoop_checks)
qed

lemma compare_no_writes:
  "filter (\<lambda>e. is_write e \<or> is_check e \<or> is_notify e) (snd (computeFileMd5 env h p)) = []"
  by (simp add: computeFileMd5_def is_write_def is_check_def is_notify_def
        split: stat.splits option.splits sum.splits)

lemma render_no_writes:
  "filter (\<lambda>e. is_write e \<or> is_check e \<or> is_notify e) (snd (renderSource env h ctx t)) = []"
  by (simp add: renderSource_def is_write_def is_check_def is_notify_def Let_def
        split: stat.splits option.splits sum.splits)

text \<open>
  Claim C1. A template that is rendered (source and destination both given) and
  whose rendered bytes have the digest of the destination file is a no-op:
  \<open>processTemplate\<close> returns \<open>nil\<close> after the rendering and the comparison, and none of
  its events creates or writes a file (no staging file, no write to the destination)
  or runs the check or the notify command.
\<close>

theorem processTemplate_same_digest_noop:
  assumes "Source t \<noteq> []" and "Dest t \<noteq> []"
    and "renderSource env h ctx t = (Inr content, ev1)"
    and "computeFileMd5 env (h @ ev1) (Dest t) = (Inr digest, ev2)"
    and "digest = md5_hex env content"
  shows "processTemplate env h ctx t = (Return_nil, ev1 @ ev2)
     \<and> filter (\<lambda>e. is_write e \<or> is_check e \<or> is_notify e)
         (snd (processTemplate env h ctx t)) = []"
proof -
  have p: "processTemplate env h ctx t = (Return_nil, ev1 @ ev2)"
    using assms by (simp add: processTemplate_def sameContent_def)
  have "filter (\<lambda>e. is_write e \<or> is_check e \<or> is_notify e) ev1 = []"
    using render_no_writes [of env h ctx t] assms(3) by simp
  moreover have "filter (\<lambda>e. is_write e \<or> is_check e \<or> is_notify e) ev2 = []"
    using compare_no_writes [of env "h @ ev1" "Dest t"] assms(4) by simp
  ultimately show ?thesis using p by simp
qed

theorem processTemplate_same_digest_noop_witness:
  "processTemplate env_same [] ctx0 tmpl_app
     = (Return_nil, [EvStat ''/etc/app.tmpl'', EvReadFile ''/etc/app.tmpl'', EvRender ''/etc/app.tmpl'',
          EvStat ''/etc/app.conf'', EvOpen ''/etc/app.conf'', EvCopy ''/etc/app.conf'',
          EvClose ''/etc/app.conf''])"
proof -
  have s: "Source tmpl_app \<noteq> []" and d: "Dest tmpl_app \<noteq> []"
    by (simp_all add: tmpl_app_def mkTemplate_def)
  have r: "renderSource env_same [] ctx0 tmpl_app =
      (Inr ''hello'', [EvStat ''/etc/app.tmpl'', EvReadFile ''/etc/app.tmpl'', EvRender ''/etc/app.tmpl''])"
    by (simp add: renderSource_def env_same_def env0_def tmpl_app_def mkTemplate_def)
  have c: "computeFileMd5 env_same
       ([] @ [EvStat ''/etc/app.tmpl'', EvReadFile ''/etc/app.tmpl'', EvRender ''/etc/app.tmpl''])
       (Dest tmpl_app) =
      (Inr ''md5:hello'', [EvStat ''/etc/app.conf'', EvOpen ''/etc/app.conf'', EvCopy ''/etc/app.conf'',
          EvClose ''/etc/app.conf''])"
    by (simp add: computeFileMd5_def env_same_def env0_def tmpl_app_def mkTemplate_def)
  have m: "''md5:hello'' = md5_hex env_same ''hello''"
    by (simp add: env_same_def env0_def)
  show ?thesis
    using processTemplate_same_digest_noop [OF s d r c m] by simp
qed

text \<open>
  Claim C10, as stated, fails for a template that carries a staging path of its own:
  with no source and no destination the command phase runs with that path, and
  \<^verbatim>\<open>{{staging}}\<close> in the check command becomes \<open>preset\<close>, not the empty string.
\<close>

theorem processTemplate_preset_staging_counterexample:
  "Source tmpl_preset = [] \<and> CheckCmd tmpl_preset = ''check {{staging}}''
   \<and> processTemplate env_same [] ctx0 tmpl_preset =
       (Return_nil, [EvCheck ''check preset'', EvNotify ''reload'' False])
   \<and> strings_ReplaceAll (CheckCmd tmpl_preset) ''{{staging}}'' [] = ''check ''
   \<and> EvCheck ''check '' \<notin> set (snd (processTemplate env_same [] ctx0 tmpl_preset))"
  by (simp add: processTemplate_def commandPhase_def runCheckNotify_events tmpl_preset_def
        effectiveCheck_def effectiveNotify_def checkCommand_def env_same_def env0_def)

text \<open>
  Claim C10, amended. A template whose source or destination is empty is not
  rendered, compared or written: \<open>processTemplate\<close> performs the command phase only (the
  direct check/notify pair, or the label fan-out), and no file event at all. No
  staging file is made, so the staging path of the command phase is the one the
  template carries: the check commands that run are the check slots with every
  \<^verbatim>\<open>{{staging}}\<close> replaced by \<open>Staging t\<close>, which is the empty string when the template
  carries none.
\<close>

theorem processTemplate_commands_only:
  assumes "Source t = [] \<or> Dest t = []"
  shows "processTemplate env h ctx t = (Return_nil, commandPhase env h t)
     \<and> filter is_file_event (snd (processTemplate env h ctx t)) = []
     \<and> filter is_check (snd (processTemplate env h ctx t)) =
          (if NotifyLbl t = [] then
             (if CheckCmd t = [] then []
              else [EvCheck (strings_ReplaceAll (CheckCmd t) ''{{staging}}'' (Staging t))])
           else map (\<lambda>c. EvCheck (strings_ReplaceAll (effectiveCheck t (containerCheck t c))
                                    ''{{staging}}'' (Staging t)))
                  (filter (\<lambda>c. effectiveCheck t (containerCheck t c) \<noteq> [])
                     (fst (fst (getLabelGroup env h (NotifyLbl t))))))
     \<and> (Staging t = [] \<longrightarrow>
          filter is_check (snd (processTemplate env h ctx t)) =
            (if NotifyLbl t = [] then
               (if CheckCmd t = [] then []
                else [EvCheck (strings_ReplaceAll (CheckCmd t) ''{{staging}}'' [])])
             else map (\<lambda>c. EvCheck (strings_ReplaceAll (effectiveCheck t (containerCheck t c))
                                      ''{{staging}}'' []))
                    (filter (\<lambda>c. effectiveCheck t (containerCheck t c) \<noteq> [])
                       (fst (fst (getLabelGroup env h (NotifyLbl t)))))))"
proof -
  have p: "processTemplate env h ctx t = (Return_nil, commandPhase env h t)"
    using assms by (auto simp: processTemplate_def)
  show ?thesis
    unfolding p
    by (simp add: commandPhase_no_files commandPhase_checks checkCommand_def effectiveCheck_def)
qed

theorem processTemplate_commands_only_witness:
  "processTemplate env_same [] ctx0 tmpl_print
     = (Return_nil, [EvCheck ''check '', EvNotify ''reload'' False])
   \<and> filter is_check (snd (processTemplate env_same [] ctx0 tmpl_print)) = [EvCheck ''check '']
   \<and> filter is_check (snd (processTemplate env_same [] ctx0 tmpl_preset)) =
       [EvCheck ''check preset'']"
proof -
  have a: "Source tmpl_print = [] \<or> Dest tmpl_print = []"
    by (simp add: tmpl_print_def mkTemplate_def)
  have b: "Source tmpl_preset = [] \<or> Dest tmpl_preset = []"
    by (simp add: tmpl_preset_def)
  have c: "commandPhase env_same [] tmpl_print = [EvCheck ''check '', EvNotify ''reload'' False]"
    by (simp add: commandPhase_def runCheckNotify_events tmpl_print_def mkTemplate_def
          effectiveCheck_def effectiveNotify_def checkCommand_def env_same_def env0_def)
  have s: "Staging tmpl_print = []" by (simp add: tmpl_print_def mkTemplate_def)
  from processTemplate_commands_only [OF a, of env_same "[]" ctx0] c
  have 1: "processTemplate env_same [] ctx0 tmpl_print
     = (Return_nil, [EvCheck ''check '', EvNotify ''reload'' False])
   \<and> filter is_check (snd (processTemplate env_same [] ctx0 tmpl_print)) = [EvCheck ''check '']"
    by (simp add: is_check_def)
  have l: "NotifyLbl tmpl_preset = []" and k: "CheckCmd tmpl_preset \<noteq> []"
    by (simp_all add: tmpl_preset_def)
  from processTemplate_commands_only [OF b, of env_same "[]" ctx0]
  have "filter is_check (snd (processTemplate env_same [] ctx0 tmpl_preset)) =
          (if NotifyLbl tmpl_preset = [] then
             (if CheckCmd tmpl_preset = [] then []
              else [EvCheck (strings_ReplaceAll (CheckCmd tmpl_preset) ''{{staging}}''
                               (Staging tmpl_preset))])
           else map (\<lambda>c. EvCheck (strings_ReplaceAll
                                    (effectiveCheck tmpl_preset (containerCheck tmpl_preset c))
                                    ''{{staging}}'' (Staging tmpl_preset)))
                  (filter (\<lambda>c. effectiveCheck tmpl_preset (containerCheck tmpl_preset c) \<noteq> [])
                     (fst (fst (getLabelGroup env_same [] (NotifyLbl tmpl_preset))))))"
    by blast
  with l k have "filter is_check (snd (processTemplate env_same [] ctx0 tmpl_preset)) =
          [EvCheck (strings_ReplaceAll (CheckCmd tmpl_preset) ''{{staging}}'' (Staging tmpl_preset))]"
    by simp
  moreover have "strings_ReplaceAll (CheckCmd tmpl_preset) ''{{staging}}'' (Staging tmpl_preset)
                   = ''check preset''"
    by (simp add: tmpl_preset_def)
  ultimately have 2: "filter is_check (snd (processTemplate env_same [] ctx0 tmpl_preset)) =
       [EvCheck ''check preset'']"
    by simp
  from 1 2 show ?thesis by blast
qed

section \<open>Properties of the poll cycle\<close>

lemma templateLoop_nil:
  "fst (templateLoop env h ctx ts) = Return_nil \<Longrightarrow>
     snd (templateLoop env h ctx ts) = spec_processEvery env h ctx ts"
proof (induction ts arbitrary: h)
  case Nil
  then show ?case by simp
next
  case (Cons t ts)
  obtain res ev where p: "processTemplate env h ctx t = (res, ev)"
    by (cases "processTemplate env h ctx t")
  obtain res' ev' where l: "templateLoop env (h @ ev) ctx ts = (res', ev')"
    by (cases "templateLoop env (h @ ev) ctx ts")
  from Cons.prems p l have "res = Return_nil" and "res' = Return_nil"
    by (cases res; simp)+
  with Cons.IH [of "h @ ev"] p l show ?case by simp
qed

lemma templateLoop_allNil:
  "spec_allNil env h ctx ts \<Longrightarrow>
     templateLoop env h ctx ts = (Return_nil, spec_processEvery env h ctx ts)"
proof (induction ts arbitrary: h)
  case Nil
  then show ?case by simp
next
  case (Cons t ts)
  obtain res ev where p: "processTemplate env h ctx t = (res, ev)"
    by (cases "processTemplate env h ctx t")
  with Cons.prems have r: "res = Return_nil" and a: "spec_allNil env (h @ ev) ctx ts"
    by simp_all
  from Cons.IH [OF a] p r show ?case by simp
qed

lemma templateLoop_stops:
  "spec_allNil env h ctx ts1 \<Longrightarrow>
   processTemplate env (h @ spec_processEvery env h ctx ts1) ctx t = (Return_error e, ev3) \<Longrightarrow>
     templateLoop env h ctx (ts1 @ t # ts2) =
       (Return_error e, spec_processEvery env h ctx ts1 @ ev3)"
proof (induction ts1 arbitrary: h)
  case Nil
  then show ?case by simp
next
  case (Cons a ts1)
  obtain res ev where p: "processTemplate env h ctx a = (res, ev)"
    by (cases "processTemplate env h ctx a")
  with Cons.prems(1) have r: "res = Return_nil" and n: "spec_allNil env (h @ ev) ctx ts1"
    by simp_all
  from Cons.prems(2) p
  have "processTemplate env ((h @ ev) @ spec_processEvery env (h @ ev) ctx ts1) ctx t =
          (Return_error e, ev3)"
    by (simp add: Let_def)
  from Cons.IH [OF n this]
  have "templateLoop env (h @ ev) ctx (ts1 @ t # ts2) =
          (Return_error e, spec_processEvery env (h @ ev) ctx ts1 @ ev3)" .
  with p r show ?case by (simp add: Let_def)
qed

lemma Run_interval_step:
  assumes "\<not> OneTime (runner.Config r)"
    and "poll env h r = ((Return_error e, r'), evs)"
    and "runner.Config r' = runner.Config r"
  shows "Run env r h =
     (case select_wakeup env (h @ evs @ [EvLogError e]) of
        Tick \<Rightarrow> Run env r' (h @ evs @ [EvLogError e, EvTick])
      | Signal s \<Rightarrow> Some (Return_nil, r', h @ evs @ [EvLogError e, EvSignal s]))"
proof -
  have "Run env r h = pollLoop env r h" using assms(1) by (simp add: Run_def)
  also have "\<dots> =
     (case select_wakeup env (h @ evs @ [EvLogError e]) of
        Tick \<Rightarrow> pollLoop env r' (h @ evs @ [EvLogError e, EvTick])
      | Signal s \<Rightarrow> Some (Return_nil, r', h @ evs @ [EvLogError e, EvSignal s]))"
    by (subst pollLoop.simps) (simp add: assms(2) Let_def)
  also have "\<dots> =
     (case select_wakeup env (h @ evs @ [EvLogError e]) of
        Tick \<Rightarrow> Run env r' (h @ evs @ [EvLogError e, EvTick])
      | Signal s \<Rightarrow> Some (Return_nil, r', h @ evs @ [EvLogError e, EvSignal s]))"
    using assms(1,3) by (simp add: Run_def cong: wakeup.case_cong)
  finally show ?thesis .
qed

lemma createContext_ignores_GetVersion:
  "createContext (env\<lparr>GetVersion := g\<rparr>) h = createContext env h"
  by (simp add: createContext_def cong: sum.case_cong)

lemma runCheckNotify_ignores_GetVersion:
  "runCheckNotify (env\<lparr>GetVersion := g\<rparr>) h t pc pn = runCheckNotify env h t pc pn"
  by (simp add: runCheckNotify_def check_def notify_def Let_def
        cong: option.case_cong prod.case_cong)

lemma notifyLoop_ignores_GetVersion:
  "notifyLoop (env\<lparr>GetVersion := g\<rparr>) h t cs = notifyLoop env h t cs"
  by (induction cs arbitrary: h) (simp_all add: runCheckNotify_ignores_GetVersion)

lemma commandPhase_ignores_GetVersion:
  "commandPhase (env\<lparr>GetVersion := g\<rparr>) h t = commandPhase env h t"
  by (simp add: commandPhase_def getLabelGroup_def createContext_ignores_GetVersion
        runCheckNotify_ignores_GetVersion notifyLoop_ignores_GetVersion
        cong: prod.case_cong)

lemma processTemplate_ignores_GetVersion:
  "processTemplate (env\<lparr>GetVersion := g\<rparr>) h ctx t = processTemplate env h ctx t"
  by (simp add: processTemplate_def renderSource_def sameContent_def computeFileMd5_def
        createStagingFile_def copyStagingToDestination_def commandPhase_ignores_GetVersion
        Let_def
        cong: prod.case_cong sum.case_cong option.case_cong stat.case_cong if_cong)

lemma templateLoop_ignores_GetVersion:
  "templateLoop (env\<lparr>GetVersion := g\<rparr>) h ctx ts = templateLoop env h ctx ts"
  by (induction ts arbitrary: h)
     (simp_all add: processTemplate_ignores_GetVersion cong: prod.case_cong outcome.case_cong)

lemma poll_version_equality_only:
  assumes "GetVersion env h = Inr v" and "g h = Inr v'"
    and "(v = Version r) = (v' = Version r')"
    and "runner.Config r = runner.Config r'"
  shows "fst (fst (poll env h r)) = fst (fst (poll (env\<lparr>GetVersion := g\<rparr>) h r'))
       \<and> snd (poll env h r) = snd (poll (env\<lparr>GetVersion := g\<rparr>) h r')"
proof (cases "v = Version r")
  case True
  with assms show ?thesis by (simp add: poll_def)
next
  case False
  with assms have "Version r \<noteq> v" "Version r' \<noteq> v'" by auto
  with assms show ?thesis
    by (simp add: poll_def Let_def createContext_ignores_GetVersion
          templateLoop_ignores_GetVersion split: prod.splits sum.splits)
qed

lemma ex_context_same: "createContext env_same h = (Inr ctx0, fetches)"
  by (simp add: createContext_def env_same_def env0_def ctx0_def fetches_def)

lemma ex_process_app_same:
  "processTemplate env_same h ctx0 tmpl_app
     = (Return_nil, [EvStat ''/etc/app.tmpl'', EvReadFile ''/etc/app.tmpl'', EvRender ''/etc/app.tmpl'',
          EvStat ''/etc/app.conf'', EvOpen ''/etc/app.conf'', EvCopy ''/etc/app.conf'',
          EvClose ''/etc/app.conf''])"
  by (simp add: processTemplate_def renderSource_def sameContent_def computeFileMd5_def
        env_same_def env0_def tmpl_app_def mkTemplate_def)

lemma ex_process_reload:
  "CombinedOutput env = (\<lambda>h c. None) \<Longrightarrow>
   processTemplate env h ctx tmpl_reload
     = (Return_nil, [EvCheck ''check2'', EvNotify ''reload2'' False])"
  by (simp add: processTemplate_def commandPhase_def runCheckNotify_events tmpl_reload_def
        mkTemplate_def effectiveCheck_def effectiveNotify_def checkCommand_def)

lemma ex_poll_ctx_fails:
  "poll env_ctx_once [] runner_init =
     ((Return_error ctx_error, runner_init\<lparr>Version := ''v1''\<rparr>),
      [EvGetVersion, EvGetServices, EvSleep 2])"
  by (simp add: poll_def createContext_def env_ctx_once_def env_same_def env0_def
        runner_init_def ctx_error_def)

lemma ex_poll_ctx_second:
  "poll env_ctx_once h (runner_init\<lparr>Version := ''v1''\<rparr>) =
     ((Return_nil, runner_init\<lparr>Version := ''v1''\<rparr>), [EvGetVersion])"
  by (simp add: poll_def env_ctx_once_def env_same_def env0_def)

lemma ex_context_second:
  "createContext env_ctx_once
     [EvGetVersion, EvGetServices, EvSleep 2, EvLogError ctx_error, EvTick, EvGetVersion]
   = (Inr ctx0, fetches)"
  by (simp add: createContext_def env_ctx_once_def env_same_def env0_def ctx0_def fetches_def)

lemma ex_process_app_cmp_fails:
  "processTemplate env_cmp_fails h ctx0 tmpl_app
     = (Return_error cmp_error,
        app_render_events @ [EvStat ''/etc/app.conf'', EvOpen ''/etc/app.conf''])"
  by (simp add: processTemplate_def renderSource_def sameContent_def computeFileMd5_def
        env_cmp_fails_def env_same_def env0_def tmpl_app_def mkTemplate_def cmp_error_def
        app_render_events_def)

lemma ex_context_cmp_fails: "createContext env_cmp_fails h = (Inr ctx0, fetches)"
  by (simp add: createContext_def env_cmp_fails_def env_same_def env0_def ctx0_def
        fetches_def)

lemma ex_cmd_cmp_fails: "CombinedOutput env_cmp_fails = (\<lambda>h c. None)"
  by (simp add: env_cmp_fails_def env_same_def env0_def)

lemma ex_version_cmp_fails: "GetVersion env_cmp_fails h = Inr ''v1''"
  by (simp add: env_cmp_fails_def env_same_def env0_def)

lemma poll_version_gate_cases:
  assumes "GetVersion env h = Inr v"
  shows "(v = Version r \<longrightarrow> poll env h r = ((Return_nil, r), [EvGetVersion]))
    \<and> (v \<noteq> Version r \<longrightarrow>
         snd (fst (poll env h r)) = r\<lparr>Version := v\<rparr>
         \<and> (\<exists>rest. snd (poll env h r) =
               EvGetVersion # snd (createContext env (h @ [EvGetVersion])) @ rest))
    \<and> (v \<noteq> Version r \<and> createContext env (h @ [EvGetVersion]) = (Inr ctx, ev1)
         \<and> fst (fst (poll env h r)) = Return_nil \<longrightarrow>
         snd (poll env h r) =
           EvGetVersion # ev1 @
           spec_processEvery env (h @ EvGetVersion # ev1) ctx (Templates (runner.Config r)))"
proof (intro conjI impI)
  assume "v = Version r"
  with assms show "poll env h r = ((Return_nil, r), [EvGetVersion])"
    by (simp add: poll_def)
next
  assume "v \<noteq> Version r"
  with assms show "snd (fst (poll env h r)) = r\<lparr>Version := v\<rparr>"
    by (auto simp: poll_def Let_def split: prod.splits sum.splits)
next
  assume "v \<noteq> Version r"
  with assms show "\<exists>rest. snd (poll env h r) =
               EvGetVersion # snd (createContext env (h @ [EvGetVersion])) @ rest"
    by (auto simp: poll_def Let_def split: prod.splits sum.splits)
next
  assume a: "v \<noteq> Version r \<and> createContext env (h @ [EvGetVersion]) = (Inr ctx, ev1)
         \<and> fst (fst (poll env h r)) = Return_nil"
  obtain res ev2 where l:
    "templateLoop env (h @ EvGetVersion # ev1) ctx (Templates (runner.Config r)) = (res, ev2)"
    by (cases "templateLoop env (h @ EvGetVersion # ev1) ctx (Templates (runner.Config r))")
  from a have ne: "Version r \<noteq> v"
    and c: "createContext env (h @ [EvGetVersion]) = (Inr ctx, ev1)"
    and n: "fst (fst (poll env h r)) = Return_nil"
    by auto
  from n ne c assms l have "res = Return_nil"
    by (simp add: poll_def Let_def)
  with l templateLoop_nil [of env "h @ EvGetVersion # ev1" ctx "Templates (runner.Config r)"]
  have "ev2 = spec_processEvery env (h @ EvGetVersion # ev1) ctx (Templates (runner.Config r))"
    by simp
  with ne c assms l show "snd (poll env h r) =
           EvGetVersion # ev1 @
           spec_processEvery env (h @ EvGetVersion # ev1) ctx (Templates (runner.Config r))"
    by (simp add: poll_def Let_def)
qed

lemma ex_context_quiet: "createContext env0 h = (Inr ctx0, fetches)"
  by (simp add: createContext_def env0_def ctx0_def fetches_def)

lemma ex_process_app_missing:
  "processTemplate env0 h ctx0 tmpl_app =
     (Exit_fatal (''Template '' @ quoted ''/etc/app.tmpl'' @ '' is missing''),
      [EvStat ''/etc/app.tmpl''])"
  by (simp add: processTemplate_def renderSource_def env0_def tmpl_app_def mkTemplate_def)

lemma poll_all_templates:
  assumes "GetVersion env h = Inr v" and "v \<noteq> Version r"
    and "createContext env (h @ [EvGetVersion]) = (Inr ctx, ev1)"
    and "spec_allNil env (h @ EvGetVersion # ev1) ctx (Templates (runner.Config r))"
  shows "poll env h r =
     ((Return_nil, r\<lparr>Version := v\<rparr>),
      EvGetVersion # ev1 @
      spec_processEvery env (h @ EvGetVersion # ev1) ctx (Templates (runner.Config r)))"
proof -
  from assms(2) have "Version r \<noteq> v" by auto
  with assms(1,3) templateLoop_allNil [OF assms(4)] show ?thesis
    by (simp add: poll_def Let_def)
qed

text \<open>
  Claim C5, as stated, fails when a template ends the cycle: the tokens differ and
  the context is rebuilt, but the source of the first template is missing, the
  process ends there, and the second configured template is not processed.
\<close>

theorem poll_differing_tokens_counterexample:
  "GetVersion env0 [] = Inr ''v1'' \<and> Version runner_init = ''init''
   \<and> poll env0 [] runner_init =
       ((Exit_fatal (''Template '' @ quoted ''/etc/app.tmpl'' @ '' is missing''),
         runner_init\<lparr>Version := ''v1''\<rparr>),
        EvGetVersion # fetches @ [EvStat ''/etc/app.tmpl''])
   \<and> spec_processEvery env0 (EvGetVersion # fetches) ctx0
       (Templates (runner.Config runner_init)) =
       [EvStat ''/etc/app.tmpl'', EvCheck ''check2'', EvNotify ''reload2'' False]
   \<and> snd (poll env0 [] runner_init) \<noteq>
       EvGetVersion # fetches @
       spec_processEvery env0 (EvGetVersion # fetches) ctx0
         (Templates (runner.Config runner_init))"
proof -
  have g: "GetVersion env0 [] = Inr ''v1''" by (simp add: env0_def)
  have v: "Version runner_init = ''init''" by (simp add: runner_init_def)
  have cmd: "CombinedOutput env0 = (\<lambda>h c. None)" by (simp add: env0_def)
  have p: "poll env0 [] runner_init =
       ((Exit_fatal (''Template '' @ quoted ''/etc/app.tmpl'' @ '' is missing''),
         runner_init\<lparr>Version := ''v1''\<rparr>),
        EvGetVersion # fetches @ [EvStat ''/etc/app.tmpl''])"
    by (simp add: poll_def g ex_context_quiet ex_process_app_missing runner_init_def cfg0_def)
  have s: "spec_processEvery env0 (EvGetVersion # fetches) ctx0
       (Templates (runner.Config runner_init)) =
       [EvStat ''/etc/app.tmpl'', EvCheck ''check2'', EvNotify ''reload2'' False]"
    by (simp add: runner_init_def cfg0_def ex_process_app_missing ex_process_reload [OF cmd])
  show ?thesis unfolding p s using g v by simp
qed

text \<open>
  Claim C5, amended. A poll cycle that fetches the version token \<open>v\<close>: when \<open>v\<close> is
  the last seen token, the cycle is a no-op (the version fetch is its only event, the
  runner is unchanged, the result is \<open>nil\<close>); when it differs, the runner takes \<open>v\<close>
  and the cycle goes on with the context rebuild; when that succeeds and no template
  returns an error or ends the process (\<open>spec_allNil\<close>), the cycle returns \<open>nil\<close> and its
  events are those of processing every configured template, in order; and a cycle
  that returned \<open>nil\<close> after a rebuild has processed every configured template. The
  tokens are only compared for equality: two cycles in the same history whose pairs
  of last seen and fetched token agree on being equal have the same result and the
  same events.
\<close>

theorem poll_version_gate:
  assumes "GetVersion env h = Inr v"
  shows "(v = Version r \<longrightarrow> poll env h r = ((Return_nil, r), [EvGetVersion]))
    \<and> (v \<noteq> Version r \<longrightarrow>
         snd (fst (poll env h r)) = r\<lparr>Version := v\<rparr>
         \<and> (\<exists>rest. snd (poll env h r) =
               EvGetVersion # snd (createContext env (h @ [EvGetVersion])) @ rest))
    \<and> (v \<noteq> Version r \<and> createContext env (h @ [EvGetVersion]) = (Inr ctx, ev1)
         \<and> spec_allNil env (h @ EvGetVersion # ev1) ctx (Templates (runner.Config r)) \<longrightarrow>
         poll env h r =
           ((Return_nil, r\<lparr>Version := v\<rparr>),
            EvGetVersion # ev1 @
            spec_processEvery env (h @ EvGetVersion # ev1) ctx (Templates (runner.Config r))))
    \<and> (v \<noteq> Version r \<and> createContext env (h @ [EvGetVersion]) = (Inr ctx, ev1)
         \<and> fst (fst (poll env h r)) = Return_nil \<longrightarrow>
         snd (poll env h r) =
           EvGetVersion # ev1 @
           spec_processEvery env (h @ EvGetVersion # ev1) ctx (Templates (runner.Config r)))
    \<and> (\<forall>g v' r'. g h = Inr v' \<and> (v = Version r) = (v' = Version r')
           \<and> runner.Config r = runner.Config r' \<longrightarrow>
         fst (fst (poll env h r)) = fst (fst (poll (env\<lparr>GetVersion := g\<rparr>) h r'))
         \<and> snd (poll env h r) = snd (poll (env\<lparr>GetVersion := g\<rparr>) h r'))"
proof -
  have new: "v \<noteq> Version r \<and> createContext env (h @ [EvGetVersion]) = (Inr ctx, ev1)
         \<and> spec_allNil env (h @ EvGetVersion # ev1) ctx (Templates (runner.Config r)) \<longrightarrow>
         poll env h r =
           ((Return_nil, r\<lparr>Version := v\<rparr>),
            EvGetVersion # ev1 @
            spec_processEvery env (h @ EvGetVersion # ev1) ctx (Templates (runner.Config r)))"
    using poll_all_templates [OF assms, of r ctx ev1] by blast
  from new poll_version_gate_cases [OF assms, of r ctx ev1]
       poll_version_equality_only [OF assms]
  show ?thesis by blast
qed

theorem poll_version_gate_witness:
  "poll env_same [] runner_seen = ((Return_nil, runner_seen), [EvGetVersion])
   \<and> poll env_same [] runner_init =
       ((Return_nil, runner_init\<lparr>Version := ''v1''\<rparr>),
        EvGetVersion # fetches @
        [EvStat ''/etc/app.tmpl'', EvReadFile ''/etc/app.tmpl'', EvRender ''/etc/app.tmpl'',
         EvStat ''/etc/app.conf'', EvOpen ''/etc/app.conf'', EvCopy ''/etc/app.conf'',
         EvClose ''/etc/app.conf'', EvCheck ''check2'', EvNotify ''reload2'' False])"
proof -
  have g: "GetVersion env_same [] = Inr ''v1''"
    by (simp add: env_same_def env0_def)
  have c: "createContext env_same ([] @ [EvGetVersion]) = (Inr ctx0, fetches)"
    by (rule ex_context_same)
  have cmd: "CombinedOutput env_same = (\<lambda>h c. None)"
    by (simp add: env_same_def env0_def)
  have t: "Templates (runner.Config runner_init) = [tmpl_app, tmpl_reload]"
    by (simp add: runner_init_def cfg0_def)
  have a: "spec_allNil env_same ([] @ EvGetVersion # fetches) ctx0
             (Templates (runner.Config runner_init))"
    unfolding t by (simp add: ex_process_app_same ex_process_reload [OF cmd])
  have sp: "spec_processEvery env_same ([] @ EvGetVersion # fetches) ctx0
             (Templates (runner.Config runner_init)) =
        [EvStat ''/etc/app.tmpl'', EvReadFile ''/etc/app.tmpl'', EvRender ''/etc/app.tmpl'',
         EvStat ''/etc/app.conf'', EvOpen ''/etc/app.conf'', EvCopy ''/etc/app.conf'',
         EvClose ''/etc/app.conf'', EvCheck ''check2'', EvNotify ''reload2'' False]"
    unfolding t by (simp add: ex_process_app_same ex_process_reload [OF cmd])
  have sp': "spec_processEvery env_same (EvGetVersion # fetches) ctx0
             (Templates (runner.Config runner_init)) =
        [EvStat ''/etc/app.tmpl'', EvReadFile ''/etc/app.tmpl'', EvRender ''/etc/app.tmpl'',
         EvStat ''/etc/app.conf'', EvOpen ''/etc/app.conf'', EvCopy ''/etc/app.conf'',
         EvClose ''/etc/app.conf'', EvCheck ''check2'', EvNotify ''reload2'' False]"
    using sp by simp
  have n: "''v1'' \<noteq> Version runner_init" by (simp add: runner_init_def)
  have s: "''v1'' = Version runner_seen" by (simp add: runner_seen_def)
  from poll_version_gate [OF g, of runner_seen] s
  have 1: "poll env_same [] runner_seen = ((Return_nil, runner_seen), [EvGetVersion])"
    by blast
  from poll_version_gate [OF g, of runner_init ctx0 fetches] n c a
  have 2: "poll env_same [] runner_init =
       ((Return_nil, runner_init\<lparr>Version := ''v1''\<rparr>),
        EvGetVersion # fetches @
        spec_processEvery env_same ([] @ EvGetVersion # fetches) ctx0
          (Templates (runner.Config runner_init)))"
    by blast
  from 1 2 show ?thesis by (simp add: sp')
qed

text \<open>
  Claim C2, evaluated. The runner starts at version \<open>init\<close> in interval mode; the
  metadata service answers \<open>v1\<close> at every poll; the first fetch of the services fails.
  The first cycle logs the error after a sleep of two seconds, but has already stored
  \<open>v1\<close>; the second cycle, after the tick, finds the version unchanged and does
  nothing, although the context could now be built.
\<close>

theorem context_failure_not_retried:
  "pollLoop env_ctx_once runner_init [] =
     Some (Return_nil, runner_init\<lparr>Version := ''v1''\<rparr>,
       [EvGetVersion, EvGetServices, EvSleep 2, EvLogError ctx_error, EvTick,
        EvGetVersion, EvSignal ''terminated''])
   \<and> createContext env_ctx_once
       [EvGetVersion, EvGetServices, EvSleep 2, EvLogError ctx_error, EvTick, EvGetVersion]
     = (Inr ctx0, fetches)"
proof -
  have tick: "\<And>h. EvTick \<notin> set h \<Longrightarrow> select_wakeup env_ctx_once h = Tick"
    by (simp add: env_ctx_once_def)
  have sig: "\<And>h. EvTick \<in> set h \<Longrightarrow> select_wakeup env_ctx_once h = Signal ''terminated''"
    by (simp add: env_ctx_once_def)
  have l2: "pollLoop env_ctx_once (runner_init\<lparr>Version := ''v1''\<rparr>)
       [EvGetVersion, EvGetServices, EvSleep 2, EvLogError ctx_error, EvTick] =
     Some (Return_nil, runner_init\<lparr>Version := ''v1''\<rparr>,
       [EvGetVersion, EvGetServices, EvSleep 2, EvLogError ctx_error, EvTick,
        EvGetVersion, EvSignal ''terminated''])"
    by (subst pollLoop.simps) (simp add: ex_poll_ctx_second sig Let_def)
  have "pollLoop env_ctx_once runner_init [] =
     Some (Return_nil, runner_init\<lparr>Version := ''v1''\<rparr>,
       [EvGetVersion, EvGetServices, EvSleep 2, EvLogError ctx_error, EvTick,
        EvGetVersion, EvSignal ''terminated''])"
    by (subst pollLoop.simps) (simp add: ex_poll_ctx_fails tick l2 Let_def)
  with ex_context_second show ?thesis by simp
qed

theorem context_failure_not_retried_witness:
  "(case pollLoop env_ctx_once runner_init [] of
      Some (res, r, h) \<Rightarrow> filter (\<lambda>e. e = EvGetServices) h | None \<Rightarrow> [])
     = [EvGetServices]"
  using context_failure_not_retried by simp

text \<open>
  Claim C3, as stated, fails: with two templates, the first of which cannot be
  compared with its destination, \<open>poll\<close> returns the error and the commands of the
  second template, which processing every template would run, are not run.
\<close>

theorem poll_continues_after_error_counterexample:
  "poll env_cmp_fails [] runner_init =
     ((Return_error cmp_error, runner_init\<lparr>Version := ''v1''\<rparr>),
      EvGetVersion # fetches @ app_render_events @
        [EvStat ''/etc/app.conf'', EvOpen ''/etc/app.conf''])
   \<and> spec_processEvery env_cmp_fails (EvGetVersion # fetches) ctx0
       (Templates (runner.Config runner_init)) =
      app_render_events @ [EvStat ''/etc/app.conf'', EvOpen ''/etc/app.conf'',
        EvCheck ''check2'', EvNotify ''reload2'' False]
   \<and> snd (poll env_cmp_fails [] runner_init) \<noteq>
      EvGetVersion # fetches @
      spec_processEvery env_cmp_fails (EvGetVersion # fetches) ctx0
        (Templates (runner.Config runner_init))"
proof -
  have p: "poll env_cmp_fails [] runner_init =
     ((Return_error cmp_error, runner_init\<lparr>Version := ''v1''\<rparr>),
      EvGetVersion # fetches @ app_render_events @
        [EvStat ''/etc/app.conf'', EvOpen ''/etc/app.conf''])"
    by (simp add: poll_def ex_version_cmp_fails ex_context_cmp_fails
          ex_process_app_cmp_fails runner_init_def cfg0_def)
  have s: "spec_processEvery env_cmp_fails (EvGetVersion # fetches) ctx0
       (Templates (runner.Config runner_init)) =
      app_render_events @ [EvStat ''/etc/app.conf'', EvOpen ''/etc/app.conf'',
        EvCheck ''check2'', EvNotify ''reload2'' False]"
    by (simp add: runner_init_def cfg0_def ex_process_app_cmp_fails
          ex_process_reload [OF ex_cmd_cmp_fails])
  show ?thesis unfolding p s by simp
qed

text \<open>
  Claim C3, amended. When the processing of a template returns an error, the
  templates before it having returned \<open>nil\<close>, \<open>poll\<close> returns that error at once:
  its events end with those of the failing template, and no later template is
  processed in that cycle. In one-shot mode \<open>Run\<close> returns that error to its caller;
  in interval mode \<open>Run\<close> logs the error and waits for the next tick or a signal.
\<close>

theorem poll_stops_at_first_template_error:
  assumes "GetVersion env h = Inr v" and "v \<noteq> Version r"
    and "createContext env (h @ [EvGetVersion]) = (Inr ctx, ev1)"
    and "Templates (runner.Config r) = ts1 @ t # ts2"
    and "spec_allNil env (h @ EvGetVersion # ev1) ctx ts1"
    and "processTemplate env
           (h @ EvGetVersion # ev1 @ spec_processEvery env (h @ EvGetVersion # ev1) ctx ts1)
           ctx t = (Return_error e, ev3)"
    and "evs = EvGetVersion # ev1 @ spec_processEvery env (h @ EvGetVersion # ev1) ctx ts1 @ ev3"
  shows "poll env h r = ((Return_error e, r\<lparr>Version := v\<rparr>), evs)
    \<and> (OneTime (runner.Config r) \<longrightarrow>
         Run env r h = Some (Return_error e, r\<lparr>Version := v\<rparr>, h @ evs))
    \<and> (\<not> OneTime (runner.Config r) \<longrightarrow>
         Run env r h =
           (case select_wakeup env (h @ evs @ [EvLogError e]) of
              Tick \<Rightarrow> Run env (r\<lparr>Version := v\<rparr>) (h @ evs @ [EvLogError e, EvTick])
            | Signal s \<Rightarrow>
                Some (Return_nil, r\<lparr>Version := v\<rparr>, h @ evs @ [EvLogError e, EvSignal s])))"
proof -
  have "templateLoop env (h @ EvGetVersion # ev1) ctx (ts1 @ t # ts2) =
          (Return_error e, spec_processEvery env (h @ EvGetVersion # ev1) ctx ts1 @ ev3)"
    using templateLoop_stops [OF assms(5), of t e ev3 ts2] assms(6) by simp
  moreover from assms(2) have "Version r \<noteq> v" by auto
  ultimately have p: "poll env h r = ((Return_error e, r\<lparr>Version := v\<rparr>), evs)"
    using assms(1,3,4,7) by (simp add: poll_def Let_def)
  have one: "OneTime (runner.Config r) \<longrightarrow>
         Run env r h = Some (Return_error e, r\<lparr>Version := v\<rparr>, h @ evs)"
    by (simp add: Run_def p)
  have int: "\<not> OneTime (runner.Config r) \<longrightarrow>
         Run env r h =
           (case select_wakeup env (h @ evs @ [EvLogError e]) of
              Tick \<Rightarrow> Run env (r\<lparr>Version := v\<rparr>) (h @ evs @ [EvLogError e, EvTick])
            | Signal s \<Rightarrow>
                Some (Return_nil, r\<lparr>Version := v\<rparr>, h @ evs @ [EvLogError e, EvSignal s]))"
    using Run_interval_step [of r env h e "r\<lparr>Version := v\<rparr>" evs] p by simp
  from p one int show ?thesis by blast
qed

theorem poll_stops_at_first_template_error_witness:
  "Run env_cmp_fails runner_oneshot [] =
     Some (Return_error cmp_error, runner_oneshot\<lparr>Version := ''v1''\<rparr>,
       EvGetVersion # fetches @ [EvCheck ''check2'', EvNotify ''reload2'' False] @
       app_render_events @ [EvStat ''/etc/app.conf'', EvOpen ''/etc/app.conf''])
   \<and> Run env_cmp_fails runner_interval [] =
     Some (Return_nil, runner_interval\<lparr>Version := ''v1''\<rparr>,
       EvGetVersion # fetches @ [EvCheck ''check2'', EvNotify ''reload2'' False] @
       app_render_events @ [EvStat ''/etc/app.conf'', EvOpen ''/etc/app.conf'',
       EvLogError cmp_error, EvSignal ''terminated''])"
proof -
  let ?h1 = "[] @ EvGetVersion # fetches"
  let ?evs = "EvGetVersion # fetches @ spec_processEvery env_cmp_fails ?h1 ctx0 [tmpl_reload] @
              (app_render_events @ [EvStat ''/etc/app.conf'', EvOpen ''/etc/app.conf''])"
  have g: "GetVersion env_cmp_fails [] = Inr ''v1''" by (rule ex_version_cmp_fails)
  have c: "createContext env_cmp_fails ([] @ [EvGetVersion]) = (Inr ctx0, fetches)"
    by (rule ex_context_cmp_fails)
  have a: "spec_allNil env_cmp_fails ?h1 ctx0 [tmpl_reload]"
    by (simp add: ex_process_reload [OF ex_cmd_cmp_fails])
  have sp: "spec_processEvery env_cmp_fails ?h1 ctx0 [tmpl_reload] =
              [EvCheck ''check2'', EvNotify ''reload2'' False]"
    by (simp add: ex_process_reload [OF ex_cmd_cmp_fails])
  have sp': "snd (processTemplate env_cmp_fails (EvGetVersion # fetches) ctx0 tmpl_reload) =
              [EvCheck ''check2'', EvNotify ''reload2'' False]"
    by (simp add: ex_process_reload [OF ex_cmd_cmp_fails])
  have e: "processTemplate env_cmp_fails
             ([] @ EvGetVersion # fetches @ spec_processEvery env_cmp_fails ?h1 ctx0 [tmpl_reload])
             ctx0 tmpl_app =
           (Return_error cmp_error,
            app_render_events @ [EvStat ''/etc/app.conf'', EvOpen ''/etc/app.conf''])"
    by (rule ex_process_app_cmp_fails)
  have w: "\<And>h. select_wakeup env_cmp_fails h = Signal ''terminated''"
    by (simp add: env_cmp_fails_def env_same_def env0_def)
  have n1: "''v1'' \<noteq> Version runner_oneshot" by (simp add: runner_oneshot_def)
  have t1: "Templates (runner.Config runner_oneshot) = [tmpl_reload] @ tmpl_app # [tmpl_stdout]"
    by (simp add: runner_oneshot_def cfg_three_def)
  have o1: "OneTime (runner.Config runner_oneshot)"
    by (simp add: runner_oneshot_def)
  have n2: "''v1'' \<noteq> Version runner_interval" by (simp add: runner_interval_def)
  have t2: "Templates (runner.Config runner_interval) = [tmpl_reload] @ tmpl_app # [tmpl_stdout]"
    by (simp add: runner_interval_def cfg_three_def)
  have o2: "\<not> OneTime (runner.Config runner_interval)"
    by (simp add: runner_interval_def cfg_three_def)
  from poll_stops_at_first_template_error [OF g n1 c t1 a e refl] o1
  have 1: "Run env_cmp_fails runner_oneshot [] =
     Some (Return_error cmp_error, runner_oneshot\<lparr>Version := ''v1''\<rparr>, [] @ ?evs)"
    by blast
  from poll_stops_at_first_template_error [OF g n2 c t2 a e refl] o2
  have 2: "Run env_cmp_fails runner_interval [] =
     (case select_wakeup env_cmp_fails ([] @ ?evs @ [EvLogError cmp_error]) of
        Tick \<Rightarrow> Run env_cmp_fails (runner_interval\<lparr>Version := ''v1''\<rparr>)
                  ([] @ ?evs @ [EvLogError cmp_error, EvTick])
      | Signal s \<Rightarrow> Some (Return_nil, runner_interval\<lparr>Version := ''v1''\<rparr>,
                  [] @ ?evs @ [EvLogError cmp_error, EvSignal s]))"
    by blast
  from 1 2 show ?thesis by (simp add: sp' w)
qed

text \<open>
  Claim C4, evaluated. A template with a source that renders to \<open>hello\<close> and with no
  destination: \<open>processTemplate\<close> does not render it and writes nothing to standard
  output; it runs the check and the notify command.
\<close>

theorem print_mode_not_reached:
  "renderSource env_same [] ctx0 tmpl_stdout =
     (Inr ''hello'',
      [EvStat ''/etc/motd.tmpl'', EvReadFile ''/etc/motd.tmpl'', EvRender ''/etc/motd.tmpl''])
   \<and> processTemplate env_same [] ctx0 tmpl_stdout =
     (Return_nil, [EvCheck ''lint'', EvNotify ''announce'' False])"
  by (simp add: processTemplate_def renderSource_def commandPhase_def runCheckNotify_events
        env_same_def env0_def tmpl_stdout_def mkTemplate_def effectiveCheck_def
        effectiveNotify_def checkCommand_def)

theorem print_mode_not_reached_witness:
  "filter (\<lambda>e. e = EvStdout ''hello'') (snd (processTemplate env_same [] ctx0 tmpl_stdout)) = []"
  using print_mode_not_reached by simp

section \<open>Properties of the label group\<close>

lemma strings_Split_no_sep: "sep \<notin> set s \<Longrightarrow> strings_Split s sep = [s]"
  by (induction s) auto

lemma strings_Split_first:
  "sep \<notin> set s \<Longrightarrow> strings_Split (s @ sep # rest) sep = s # strings_Split rest sep"
  by (induction s) auto

lemma selector_plain:
  "CHR '':'' \<notin> set name \<Longrightarrow> selectorName name = name \<and> selectorValue name = []"
  by (simp add: selectorName_def selectorValue_def strings_Split_no_sep)

lemma selector_pair:
  "CHR '':'' \<notin> set name \<Longrightarrow> CHR '':'' \<notin> set value \<Longrightarrow>
     selectorName (name @ '':'' @ value) = name \<and> selectorValue (name @ '':'' @ value) = value"
  by (simp add: selectorName_def selectorValue_def strings_Split_first strings_Split_no_sep)

lemma matchLabels_no_key:
  "n \<notin> fst ` set ls \<Longrightarrow> matchLabels n v c ls acc = acc"
  by (induction ls arbitrary: acc) auto

lemma matchLabels_distinct:
  "distinct (map fst ls) \<Longrightarrow>
     matchLabels n v c ls acc =
       acc @ (if (case map_of ls n of Some val \<Rightarrow> v = [] \<or> val = v | None \<Rightarrow> False)
              then [c] else [])"
proof (induction ls arbitrary: acc)
  case Nil
  then show ?case by simp
next
  case (Cons p ls)
  obtain lbl val where p: "p = (lbl, val)" by (cases p)
  show ?case
  proof (cases "lbl = n")
    case True
    with Cons.prems p have "n \<notin> fst ` set ls" by auto
    with True p show ?thesis by (simp add: matchLabels_no_key)
  next
    case False
    with Cons p show ?thesis by simp
  qed
qed

lemma matchContainers_filter:
  "\<forall>c \<in> set cs. distinct (map fst (Container.Labels c)) \<Longrightarrow>
     matchContainers n v cs acc = acc @ filter (labelMatches n v) cs"
  by (induction cs arbitrary: acc) (simp_all add: matchLabels_distinct labelMatches_def)

lemma labelMatches_any:
  assumes "distinct (map fst (Container.Labels c))"
  shows "labelMatches n [] c = spec_hasKey n c"
proof (cases "map_of (Container.Labels c) n")
  case None
  then have "n \<notin> fst ` set (Container.Labels c)"
    by (simp add: map_of_eq_None_iff)
  with None show ?thesis by (simp add: labelMatches_def spec_hasKey_def)
next
  case (Some val)
  then have "(n, val) \<in> set (Container.Labels c)" by (rule map_of_SomeD)
  then have "n \<in> fst ` set (Container.Labels c)" by force
  with Some show ?thesis by (simp add: labelMatches_def spec_hasKey_def)
qed

lemma labelMatches_exact:
  assumes "distinct (map fst (Container.Labels c))" and "v \<noteq> []"
  shows "labelMatches n v c = spec_hasValue n v c"
proof -
  have "(map_of (Container.Labels c) n = Some v) = ((n, v) \<in> set (Container.Labels c))"
    using assms(1) by simp
  with assms(2) show ?thesis
    by (cases "map_of (Container.Labels c) n") (auto simp: labelMatches_def spec_hasValue_def)
qed

lemma getLabelGroup_filter:
  assumes "createContext env h = (Inr ctx, evs)"
    and "\<forall>c \<in> set (TemplateContext.Containers ctx). distinct (map fst (Container.Labels c))"
    and "label \<noteq> []"
  shows "fst (fst (getLabelGroup env h label)) =
     filter (labelMatches (selectorName label) (selectorValue label))
       (TemplateContext.Containers ctx)"
  using assms by (simp add: getLabelGroup_def Let_def matchContainers_filter)

lemma ex_context_roles: "createContext env_roles h = (Inr ctx_roles, fetches)"
  by (simp add: createContext_def env_roles_def env0_def ctx_roles_def fetches_def
        buildContext_def buildContainer_def mkMeta_def mkContainer_def containers_roles_def
        metaSelf0_def)

lemma ex_roles_distinct:
  "\<forall>c \<in> set (TemplateContext.Containers ctx_roles). distinct (map fst (Container.Labels c))"
  by (simp add: ctx_roles_def containers_roles_def mkContainer_def)

text \<open>
  Claim C6, as stated, fails for a selector with an empty value: \<open>role:\<close> names the
  key \<open>role\<close> and the value \<open>\<close>, and no container has a label \<open>role\<close> with the empty
  value, yet \<open>getLabelGroup\<close> selects every container that has the key (nor does it
  select by a key \<open>role:\<close>).
\<close>

theorem getLabelGroup_empty_value_counterexample:
  "fst (fst (getLabelGroup env_roles [] ''role:'')) =
     [mkContainer ''web1'' [(''role'', ''worker'')],
      mkContainer ''web2'' [(''tier'', ''front''), (''role'', ''leader'')]]
   \<and> filter (spec_hasValue ''role'' []) (TemplateContext.Containers ctx_roles) = []
   \<and> fst (fst (getLabelGroup env_roles [] ''role:'')) \<noteq>
       filter (spec_hasValue ''role'' []) (TemplateContext.Containers ctx_roles)"
  by (simp add: getLabelGroup_def Let_def ex_context_roles selectorName_def selectorValue_def
        ctx_roles_def containers_roles_def mkContainer_def spec_hasValue_def)

text \<open>
  Claim C6, amended. On a snapshot whose label maps hold each key once, for a name
  and a value without a colon: the selector \<open>name\<close> (not empty) selects exactly the
  containers that carry the key \<open>name\<close>, in snapshot order; the selector \<open>name:value\<close>
  with a non-empty value selects exactly those whose label \<open>name\<close> has the value
  \<open>value\<close>; the selector \<open>name:\<close> with an empty value selects like \<open>name\<close>.
\<close>

theorem getLabelGroup_selects:
  assumes "createContext env h = (Inr ctx, evs)"
    and "\<forall>c \<in> set (TemplateContext.Containers ctx). distinct (map fst (Container.Labels c))"
    and "CHR '':'' \<notin> set name" and "CHR '':'' \<notin> set value"
  shows "(name \<noteq> [] \<longrightarrow>
            fst (fst (getLabelGroup env h name)) =
              filter (spec_hasKey name) (TemplateContext.Containers ctx))
     \<and> (value \<noteq> [] \<longrightarrow>
            fst (fst (getLabelGroup env h (name @ '':'' @ value))) =
              filter (spec_hasValue name value) (TemplateContext.Containers ctx))
     \<and> fst (fst (getLabelGroup env h (name @ '':''))) =
              filter (spec_hasKey name) (TemplateContext.Containers ctx)"
proof -
  have any: "filter (labelMatches name []) (TemplateContext.Containers ctx) =
             filter (spec_hasKey name) (TemplateContext.Containers ctx)"
    using assms(2) by (intro filter_cong refl) (simp add: labelMatches_any)
  have exact: "value \<noteq> [] \<Longrightarrow>
             filter (labelMatches name value) (TemplateContext.Containers ctx) =
             filter (spec_hasValue name value) (TemplateContext.Containers ctx)"
    using assms(2) by (intro filter_cong refl) (simp add: labelMatches_exact)
  have 1: "name \<noteq> [] \<longrightarrow> fst (fst (getLabelGroup env h name)) =
              filter (spec_hasKey name) (TemplateContext.Containers ctx)"
    using getLabelGroup_filter [OF assms(1,2), of name] selector_plain [OF assms(3)] any
    by simp
  have 2: "value \<noteq> [] \<longrightarrow> fst (fst (getLabelGroup env h (name @ '':'' @ value))) =
              filter (spec_hasValue name value) (TemplateContext.Containers ctx)"
    using getLabelGroup_filter [OF assms(1,2), of "name @ '':'' @ value"]
          selector_pair [OF assms(3,4)] exact
    by simp
  have 3: "fst (fst (getLabelGroup env h (name @ '':''))) =
              filter (spec_hasKey name) (TemplateContext.Containers ctx)"
    using getLabelGroup_filter [OF assms(1,2), of "name @ '':''"]
          selector_pair [OF assms(3), of "[]"] any
    by simp
  from 1 2 3 show ?thesis by blast
qed

theorem getLabelGroup_selects_witness:
  "fst (fst (getLabelGroup env_roles [] ''role'')) =
     [mkContainer ''web1'' [(''role'', ''worker'')],
      mkContainer ''web2'' [(''tier'', ''front''), (''role'', ''leader'')]]
   \<and> fst (fst (getLabelGroup env_roles [] ''role:leader'')) =
     [mkContainer ''web2'' [(''tier'', ''front''), (''role'', ''leader'')]]"
proof -
  have n: "CHR '':'' \<notin> set ''role''" and v: "CHR '':'' \<notin> set ''leader''" by simp_all
  have k: "filter (spec_hasKey ''role'') (TemplateContext.Containers ctx_roles) =
     [mkContainer ''web1'' [(''role'', ''worker'')],
      mkContainer ''web2'' [(''tier'', ''front''), (''role'', ''leader'')]]"
    by (simp add: ctx_roles_def containers_roles_def mkContainer_def spec_hasKey_def)
  have e: "filter (spec_hasValue ''role'' ''leader'') (TemplateContext.Containers ctx_roles) =
     [mkContainer ''web2'' [(''tier'', ''front''), (''role'', ''leader'')]]"
    by (simp add: ctx_roles_def containers_roles_def mkContainer_def spec_hasValue_def)
  from getLabelGroup_selects [OF ex_context_roles ex_roles_distinct n v, of "[]"] k e
  show ?thesis by simp
qed

section \<open>Properties of the label fan-out\<close>

lemma ex_context_fanout: "createContext env_fanout h = (Inr ctx_fanout, fetches)"
  by (simp add: createContext_def env_fanout_def env0_def ctx_fanout_def fetches_def
        buildContext_def buildContainer_def mkMeta_def mkContainer_def metaSelf0_def)

lemma ex_fanout_distinct:
  "\<forall>c \<in> set (TemplateContext.Containers ctx_fanout). distinct (map fst (Container.Labels c))"
  by (simp add: ctx_fanout_def mkContainer_def)

lemma ex_group_fanout:
  "getLabelGroup env_fanout h ''role:worker'' = ((workers, None), fetches)"
proof -
  have n: "selectorName ''role:worker'' = ''role''" and v: "selectorValue ''role:worker'' = ''worker''"
    by (simp_all add: selectorName_def selectorValue_def)
  have m: "matchContainers ''role'' ''worker'' (TemplateContext.Containers ctx_fanout) [] = workers"
    by (simp add: ctx_fanout_def workers_def mkContainer_def)
  show ?thesis
    by (simp add: getLabelGroup_def Let_def ex_context_fanout n v m del: matchContainers.simps)
qed

lemma ex_parse_check:
  "fst (parseCmdTemplate (mkContainer n ls) ''check {{Name}}'') = ''check '' @ n"
  by (simp add: parseCmdTemplate_def mkContainer_def match_token_def token_char_def
        word_char_def tokenKey_def strings_Trim_def containerFields_def fieldString_def
        labelValue_def Let_def)

lemma ex_parse_reload:
  "fst (parseCmdTemplate (mkContainer n ls) ''reload {{Name}}'') = ''reload '' @ n"
  by (simp add: parseCmdTemplate_def mkContainer_def match_token_def token_char_def
        word_char_def tokenKey_def strings_Trim_def containerFields_def fieldString_def
        labelValue_def Let_def)

lemma ex_parse_check_staging:
  "fst (parseCmdTemplate (mkContainer n ls) ''check {{Name}} {{staging}}'') =
     ''check '' @ n @ '' {{staging}}''"
  by (simp add: parseCmdTemplate_def mkContainer_def match_token_def token_char_def
        word_char_def tokenKey_def strings_Trim_def containerFields_def fieldString_def
        labelValue_def Let_def)

lemma ex_loop_fanout_file:
  "notifyLoop env_fanout h (tmpl_fanout_file\<lparr>Staging := staging_app\<rparr>) workers =
     [EvCheck ''check web1 /etc/.app.conf-001'', EvNotify ''reload web1'' False,
      EvCheck ''check web2 /etc/.app.conf-001'',
      EvCheck ''check web3 /etc/.app.conf-001'', EvNotify ''reload web3'' False]"
  by (simp add: workers_def tmpl_fanout_file_def mkTemplate_def ex_parse_check_staging
        ex_parse_reload runCheckNotify_events effectiveCheck_def effectiveNotify_def
        checkCommand_def env_fanout_def env0_def staging_app_def Let_def)

lemma ex_render_fanout:
  "renderSource env_fanout h ctx tmpl_fanout_file = (Inr ''hello'', app_render_events)"
  by (simp add: renderSource_def env_fanout_def env0_def tmpl_fanout_file_def mkTemplate_def
        app_render_events_def)

lemma ex_compare_fanout:
  "sameContent env_fanout h ''hello'' ''/etc/app.conf'' = (Inr False, app_compare_events)"
  by (simp add: sameContent_def computeFileMd5_def env_fanout_def env0_def
        app_compare_events_def)

lemma ex_staging_fanout:
  "createStagingFile env_fanout h ''hello'' ''/etc/app.conf'' =
     (Inr staging_app, app_staging_events)"
  by (simp add: createStagingFile_def env_fanout_def env0_def fileInfo0_def staging_app_def
        app_staging_events_def Let_def)

lemma ex_copy_fanout:
  "copyStagingToDestination env_fanout h staging_app ''/etc/app.conf'' =
     (None, [EvRename staging_app ''/etc/app.conf''])"
  by (simp add: copyStagingToDestination_def env_fanout_def env0_def Let_def)

lemma ex_loop_fanout:
  "notifyLoop env_fanout h tmpl_fanout workers =
     [EvCheck ''check web1'', EvNotify ''reload web1'' False,
      EvCheck ''check web2'',
      EvCheck ''check web3'', EvNotify ''reload web3'' False]"
  by (simp add: workers_def tmpl_fanout_def mkTemplate_def ex_parse_check ex_parse_reload
        runCheckNotify_events effectiveCheck_def effectiveNotify_def checkCommand_def
        env_fanout_def env0_def Let_def)

text \<open>
  Claim C7. A template with a label selector, at the point where \<open>processTemplate\<close>
  reaches its command phase (at once when the source or the destination is empty,
  after the destination was written otherwise): the command phase asks
  \<open>getLabelGroup\<close> for the containers of the selector and runs the fan-out loop over
  the list it returns, which is the list of the matching containers of the rebuilt
  snapshot, in snapshot order. Every container of the list gets its own call of
  \<open>runCheckNotify\<close>, in list order, whatever the commands of the containers before it
  did: the events of the loop are the events of the containers before the \<open>i\<close>-th,
  then those of the \<open>i\<close>-th container's check/notify pair, then those of the containers
  behind it. In particular the check commands that run are those of all containers
  with a non-empty check slot, in order, in every environment.
\<close>

theorem processTemplate_fanout_runs_every_container:
  assumes lbl: "NotifyLbl t \<noteq> []"
    and path: "((Source t = [] \<or> Dest t = []) \<and> pre = [] \<and> t' = t \<and> post = [])
       \<or> (Source t \<noteq> [] \<and> Dest t \<noteq> []
          \<and> renderSource env h ctx t = (Inr content, ev1)
          \<and> sameContent env (h @ ev1) content (Dest t) = (Inr False, ev2)
          \<and> createStagingFile env (h @ ev1 @ ev2) content (Dest t) = (Inr sf, ev3)
          \<and> copyStagingToDestination env (h @ ev1 @ ev2 @ ev3) sf (Dest t) = (None, ev4)
          \<and> pre = ev1 @ ev2 @ ev3 @ ev4 \<and> t' = t\<lparr>Staging := sf\<rparr> \<and> post = [EvRemove sf])"
    and grp: "getLabelGroup env (h @ pre) (NotifyLbl t) = ((cs, err), ev0)"
  shows "processTemplate env h ctx t =
           (Return_nil, pre @ commandPhase env (h @ pre) t' @ post)
    \<and> commandPhase env (h @ pre) t' = ev0 @ notifyLoop env (h @ pre @ ev0) t' cs
    \<and> (\<forall>ctx' evs. createContext env (h @ pre) = (Inr ctx', evs)
          \<and> (\<forall>c \<in> set (TemplateContext.Containers ctx').
                distinct (map fst (Container.Labels c))) \<longrightarrow>
          cs = filter (labelMatches (selectorName (NotifyLbl t)) (selectorValue (NotifyLbl t)))
                 (TemplateContext.Containers ctx'))
    \<and> (\<forall>i < length cs.
          notifyLoop env (h @ pre @ ev0) t' cs =
            notifyLoop env (h @ pre @ ev0) t' (take i cs) @
            snd (runCheckNotify env (h @ pre @ ev0 @ notifyLoop env (h @ pre @ ev0) t' (take i cs))
                   t' (containerCheck t (cs ! i)) (containerNotify t (cs ! i))) @
            notifyLoop env (h @ pre @ ev0 @ notifyLoop env (h @ pre @ ev0) t' (take (Suc i) cs))
              t' (drop (Suc i) cs))
    \<and> filter is_check (commandPhase env (h @ pre) t') =
        map (\<lambda>c. EvCheck (strings_ReplaceAll (effectiveCheck t (containerCheck t c))
                            ''{{staging}}'' (Staging t')))
          (filter (\<lambda>c. effectiveCheck t (containerCheck t c) \<noteq> []) cs)"
proof -
  from path have fields: "NotifyLbl t' = NotifyLbl t" "CheckCmd t' = CheckCmd t"
      "NotifyCmd t' = NotifyCmd t"
    by auto
  from path have 1: "processTemplate env h ctx t =
           (Return_nil, pre @ commandPhase env (h @ pre) t' @ post)"
  proof
    assume "(Source t = [] \<or> Dest t = []) \<and> pre = [] \<and> t' = t \<and> post = []"
    then show ?thesis by (auto simp: processTemplate_def)
  next
    assume a: "Source t \<noteq> [] \<and> Dest t \<noteq> []
          \<and> renderSource env h ctx t = (Inr content, ev1)
          \<and> sameContent env (h @ ev1) content (Dest t) = (Inr False, ev2)
          \<and> createStagingFile env (h @ ev1 @ ev2) content (Dest t) = (Inr sf, ev3)
          \<and> copyStagingToDestination env (h @ ev1 @ ev2 @ ev3) sf (Dest t) = (None, ev4)
          \<and> pre = ev1 @ ev2 @ ev3 @ ev4 \<and> t' = t\<lparr>Staging := sf\<rparr> \<and> post = [EvRemove sf]"
    then show ?thesis by (simp add: processTemplate_def Let_def)
  qed
  from lbl fields have lbl': "NotifyLbl t' \<noteq> []" by simp
  have 2: "commandPhase env (h @ pre) t' = ev0 @ notifyLoop env (h @ pre @ ev0) t' cs"
    using commandPhase_fanout [OF lbl', of env "h @ pre"] grp fields by simp
  have 3: "\<forall>ctx' evs. createContext env (h @ pre) = (Inr ctx', evs)
          \<and> (\<forall>c \<in> set (TemplateContext.Containers ctx').
                distinct (map fst (Container.Labels c))) \<longrightarrow>
          cs = filter (labelMatches (selectorName (NotifyLbl t)) (selectorValue (NotifyLbl t)))
                 (TemplateContext.Containers ctx')"
  proof (intro allI impI, elim conjE)
    fix ctx' evs
    assume "createContext env (h @ pre) = (Inr ctx', evs)"
      and "\<forall>c \<in> set (TemplateContext.Containers ctx'). distinct (map fst (Container.Labels c))"
    from getLabelGroup_filter [OF this lbl] grp
    show "cs = filter (labelMatches (selectorName (NotifyLbl t)) (selectorValue (NotifyLbl t)))
                 (TemplateContext.Containers ctx')"
      by simp
  qed
  have cc: "\<And>c. containerCheck t' c = containerCheck t c"
    and cn: "\<And>c. containerNotify t' c = containerNotify t c"
    and ec: "\<And>x. effectiveCheck t' x = effectiveCheck t x"
    using fields by (simp_all add: containerCheck_def containerNotify_def effectiveCheck_def)
  have 4: "\<forall>i < length cs.
          notifyLoop env (h @ pre @ ev0) t' cs =
            notifyLoop env (h @ pre @ ev0) t' (take i cs) @
            snd (runCheckNotify env (h @ pre @ ev0 @ notifyLoop env (h @ pre @ ev0) t' (take i cs))
                   t' (containerCheck t (cs ! i)) (containerNotify t (cs ! i))) @
            notifyLoop env (h @ pre @ ev0 @ notifyLoop env (h @ pre @ ev0) t' (take (Suc i) cs))
              t' (drop (Suc i) cs)"
  proof (intro allI impI)
    fix i assume "i < length cs"
    from notifyLoop_nth [OF this, of env "h @ pre @ ev0" t']
    show "notifyLoop env (h @ pre @ ev0) t' cs =
            notifyLoop env (h @ pre @ ev0) t' (take i cs) @
            snd (runCheckNotify env (h @ pre @ ev0 @ notifyLoop env (h @ pre @ ev0) t' (take i cs))
                   t' (containerCheck t (cs ! i)) (containerNotify t (cs ! i))) @
            notifyLoop env (h @ pre @ ev0 @ notifyLoop env (h @ pre @ ev0) t' (take (Suc i) cs))
              t' (drop (Suc i) cs)"
      by (simp add: cc cn)
  qed
  have "fst (fst (getLabelGroup env (h @ pre) (NotifyLbl t'))) = cs"
    using grp fields by simp
  with commandPhase_checks [of env "h @ pre" t'] lbl'
  have 5: "filter is_check (commandPhase env (h @ pre) t') =
        map (\<lambda>c. EvCheck (strings_ReplaceAll (effectiveCheck t (containerCheck t c))
                            ''{{staging}}'' (Staging t')))
          (filter (\<lambda>c. effectiveCheck t (containerCheck t c) \<noteq> []) cs)"
    by (simp add: checkCommand_def cc ec)
  from 1 2 3 4 5 show ?thesis by blast
qed

theorem processTemplate_fanout_runs_every_container_witness:
  "processTemplate env_fanout [] ctx_fanout tmpl_fanout =
     (Return_nil,
      fetches @
      [EvCheck ''check web1'', EvNotify ''reload web1'' False,
       EvCheck ''check web2'',
       EvCheck ''check web3'', EvNotify ''reload web3'' False])
   \<and> processTemplate env_fanout [] ctx_fanout tmpl_fanout_file =
     (Return_nil,
      app_render_events @ app_compare_events @ app_staging_events @
      [EvRename staging_app ''/etc/app.conf''] @
      fetches @
      [EvCheck ''check web1 /etc/.app.conf-001'', EvNotify ''reload web1'' False,
       EvCheck ''check web2 /etc/.app.conf-001'',
       EvCheck ''check web3 /etc/.app.conf-001'', EvNotify ''reload web3'' False] @
      [EvRemove staging_app])
   \<and> workers = filter (labelMatches (selectorName ''role:worker'') (selectorValue ''role:worker''))
                 (TemplateContext.Containers ctx_fanout)"
proof -
  let ?pre = "app_render_events @ app_compare_events @ app_staging_events @
              [EvRename staging_app ''/etc/app.conf'']"
  have l1: "NotifyLbl tmpl_fanout \<noteq> []" and n1: "NotifyLbl tmpl_fanout = ''role:worker''"
    by (simp_all add: tmpl_fanout_def mkTemplate_def)
  have p1: "((Source tmpl_fanout = [] \<or> Dest tmpl_fanout = []) \<and> [] = [] \<and>
             tmpl_fanout = tmpl_fanout \<and> [] = [])
       \<or> (Source tmpl_fanout \<noteq> [] \<and> Dest tmpl_fanout \<noteq> []
          \<and> renderSource env_fanout [] ctx_fanout tmpl_fanout = (Inr [], [])
          \<and> sameContent env_fanout ([] @ []) [] (Dest tmpl_fanout) = (Inr False, [])
          \<and> createStagingFile env_fanout ([] @ [] @ []) [] (Dest tmpl_fanout) = (Inr [], [])
          \<and> copyStagingToDestination env_fanout ([] @ [] @ [] @ []) [] (Dest tmpl_fanout)
              = (None, [])
          \<and> [] = [] @ [] @ [] @ [] \<and> tmpl_fanout = tmpl_fanout\<lparr>Staging := []\<rparr>
          \<and> [] = [EvRemove []])"
    by (simp add: tmpl_fanout_def mkTemplate_def)
  have g1: "getLabelGroup env_fanout ([] @ []) (NotifyLbl tmpl_fanout) = ((workers, None), fetches)"
    unfolding n1 by (rule ex_group_fanout)
  have c1: "createContext env_fanout ([] @ []) = (Inr ctx_fanout, fetches)"
    by (rule ex_context_fanout)
  note t1 = processTemplate_fanout_runs_every_container [OF l1 p1 g1]
  from t1 have a1: "processTemplate env_fanout [] ctx_fanout tmpl_fanout =
           (Return_nil, [] @ commandPhase env_fanout ([] @ []) tmpl_fanout @ [])"
    by blast
  from t1 have b1: "commandPhase env_fanout ([] @ []) tmpl_fanout =
           fetches @ notifyLoop env_fanout ([] @ [] @ fetches) tmpl_fanout workers"
    by blast
  from t1 c1 ex_fanout_distinct
  have d1: "workers = filter (labelMatches (selectorName (NotifyLbl tmpl_fanout))
                               (selectorValue (NotifyLbl tmpl_fanout)))
                        (TemplateContext.Containers ctx_fanout)"
    by blast
  have r1: "processTemplate env_fanout [] ctx_fanout tmpl_fanout =
     (Return_nil,
      fetches @
      [EvCheck ''check web1'', EvNotify ''reload web1'' False,
       EvCheck ''check web2'',
       EvCheck ''check web3'', EvNotify ''reload web3'' False])"
    unfolding a1 b1 ex_loop_fanout by simp
  have l2: "NotifyLbl tmpl_fanout_file \<noteq> []"
    and n2: "NotifyLbl tmpl_fanout_file = ''role:worker''"
    and d2: "Dest tmpl_fanout_file = ''/etc/app.conf''"
    and s2: "Source tmpl_fanout_file \<noteq> []"
    by (simp_all add: tmpl_fanout_file_def mkTemplate_def)
  have p2: "((Source tmpl_fanout_file = [] \<or> Dest tmpl_fanout_file = []) \<and> ?pre = [] \<and>
             tmpl_fanout_file\<lparr>Staging := staging_app\<rparr> = tmpl_fanout_file \<and>
             [EvRemove staging_app] = [])
       \<or> (Source tmpl_fanout_file \<noteq> [] \<and> Dest tmpl_fanout_file \<noteq> []
          \<and> renderSource env_fanout [] ctx_fanout tmpl_fanout_file =
              (Inr ''hello'', app_render_events)
          \<and> sameContent env_fanout ([] @ app_render_events) ''hello'' (Dest tmpl_fanout_file) =
              (Inr False, app_compare_events)
          \<and> createStagingFile env_fanout ([] @ app_render_events @ app_compare_events) ''hello''
              (Dest tmpl_fanout_file) = (Inr staging_app, app_staging_events)
          \<and> copyStagingToDestination env_fanout
              ([] @ app_render_events @ app_compare_events @ app_staging_events) staging_app
              (Dest tmpl_fanout_file) = (None, [EvRename staging_app ''/etc/app.conf''])
          \<and> ?pre = app_render_events @ app_compare_events @ app_staging_events @
                    [EvRename staging_app ''/etc/app.conf'']
          \<and> tmpl_fanout_file\<lparr>Staging := staging_app\<rparr> = tmpl_fanout_file\<lparr>Staging := staging_app\<rparr>
          \<and> [EvRemove staging_app] = [EvRemove staging_app])"
    unfolding d2 using s2
    by (simp only: ex_render_fanout ex_compare_fanout ex_staging_fanout ex_copy_fanout) simp
  have g2: "getLabelGroup env_fanout ([] @ ?pre) (NotifyLbl tmpl_fanout_file) =
              ((workers, None), fetches)"
    unfolding n2 by (rule ex_group_fanout)
  note t2 = processTemplate_fanout_runs_every_container [OF l2 p2 g2]
  from t2 have a2: "processTemplate env_fanout [] ctx_fanout tmpl_fanout_file =
           (Return_nil, ?pre @ commandPhase env_fanout ([] @ ?pre)
                                 (tmpl_fanout_file\<lparr>Staging := staging_app\<rparr>) @
                        [EvRemove staging_app])"
    by blast
  from t2 have b2: "commandPhase env_fanout ([] @ ?pre) (tmpl_fanout_file\<lparr>Staging := staging_app\<rparr>) =
           fetches @ notifyLoop env_fanout ([] @ ?pre @ fetches)
                       (tmpl_fanout_file\<lparr>Staging := staging_app\<rparr>) workers"
    by blast
  have r2: "processTemplate env_fanout [] ctx_fanout tmpl_fanout_file =
     (Return_nil,
      app_render_events @ app_compare_events @ app_staging_events @
      [EvRename staging_app ''/etc/app.conf''] @
      fetches @
      [EvCheck ''check web1 /etc/.app.conf-001'', EvNotify ''reload web1'' False,
       EvCheck ''check web2 /etc/.app.conf-001'',
       EvCheck ''check web3 /etc/.app.conf-001'', EvNotify ''reload web3'' False] @
      [EvRemove staging_app])"
    unfolding a2 b2 ex_loop_fanout_file by simp
  from r1 r2 d1 n1 show ?thesis by simp
qed

section \<open>Properties of the per-container substitution\<close>

lemma token_char_not_brace: "token_char x \<Longrightarrow> x \<noteq> CHR ''{'' \<and> x \<noteq> CHR ''}''"
  by (auto simp: token_char_def word_char_def)

lemma inert_no_open: "CHR ''{'' \<notin> set s \<Longrightarrow> inert s"
  by (induction s rule: inert.induct) auto

lemma match_token_inert1: "c \<noteq> CHR ''{'' \<Longrightarrow> match_token (c # rest) = None"
  by (simp add: match_token_def split: list.splits)

lemma match_token_inert2:
  "\<not> (a = CHR ''{'' \<and> b = CHR ''{'') \<Longrightarrow> match_token (a # b # rest) = None"
  by (auto simp: match_token_def)

lemma FindAll_inert: "inert s \<Longrightarrow> regexp_FindAll (s @ rest) = regexp_FindAll rest"
  by (induction s rule: inert.induct)
     (simp_all add: match_token_inert1 match_token_inert2)

lemma match_token_tok:
  assumes "list_all token_char k"
  shows "match_token (tok k @ rest) = Some (tok k)"
proof -
  have nb: "\<not> token_char CHR ''}''" by (simp add: token_char_def word_char_def)
  have all: "\<And>x. x \<in> set k \<Longrightarrow> token_char x" using assms by (simp add: list_all_iff)
  have t: "takeWhile token_char (k @ CHR ''}'' # CHR ''}'' # rest) = k"
    using all nb by (simp add: takeWhile_append2)
  have d: "dropWhile token_char (k @ CHR ''}'' # CHR ''}'' # rest) = CHR ''}'' # CHR ''}'' # rest"
    using all nb by (simp add: dropWhile_append2)
  show ?thesis
    using t d by (simp add: match_token_def tok_def)
qed

lemma FindAll_tok:
  assumes "list_all token_char k"
  shows "regexp_FindAll (tok k @ rest) = tok k # regexp_FindAll rest"
proof -
  have "tok k @ rest = CHR ''{'' # (CHR ''{'' # k @ ''}}'' @ rest)" by (simp add: tok_def)
  then have "regexp_FindAll (tok k @ rest) =
      (case match_token (tok k @ rest) of
         Some m \<Rightarrow> m # regexp_FindAll (drop (length m) (tok k @ rest))
       | None \<Rightarrow> regexp_FindAll (CHR ''{'' # k @ ''}}'' @ rest))"
    by (metis regexp_FindAll.simps(2))
  then show ?thesis by (simp add: match_token_tok [OF assms])
qed

lemma FindAll_render:
  "list_all wf_segment segs \<Longrightarrow>
     regexp_FindAll (render segs) = map tok (segment_keys segs)"
proof (induction segs)
  case Nil
  then show ?case by (simp add: render_def)
next
  case (Cons p segs)
  then have ih: "regexp_FindAll (render segs) = map tok (segment_keys segs)" by simp
  show ?case
  proof (cases p)
    case (Lit s)
    with Cons.prems have "inert s" by simp
    with Lit ih show ?thesis
      using FindAll_inert [of s "render segs"] by (simp add: render_def)
  next
    case (Tok k)
    with Cons.prems have "list_all token_char k" by simp
    with Tok ih show ?thesis
      using FindAll_tok [of k "render segs"] by (simp add: render_def)
  qed
qed

lemma tok_Cons: "tok k = CHR ''{'' # CHR ''{'' # k @ ''}}''"
  by (simp add: tok_def)

lemma ReplaceAll_inert:
  "inert s \<Longrightarrow> strings_ReplaceAll (s @ rest) (tok k) v = s @ strings_ReplaceAll rest (tok k) v"
  by (induction s rule: inert.induct) (auto simp: tok_Cons)

lemma ReplaceAll_same:
  "strings_ReplaceAll (tok k @ rest) (tok k) v = v @ strings_ReplaceAll rest (tok k) v"
proof -
  have "tok k @ rest = CHR ''{'' # (CHR ''{'' # k @ ''}}'' @ rest)" by (simp add: tok_def)
  moreover have "prefix (tok k) (tok k @ rest)" by simp
  moreover have "tok k \<noteq> []" by (simp add: tok_def)
  moreover have "drop (length (tok k)) (tok k @ rest) = rest" by simp
  ultimately show ?thesis
    by (metis strings_ReplaceAll.simps(2))
qed

lemma key_prefix_eq:
  assumes "CHR ''}'' \<notin> set k0" and "CHR ''}'' \<notin> set k"
    and "prefix (k0 @ CHR ''}'' # x) (k @ CHR ''}'' # y)"
  shows "k0 = k"
  using assms
proof (induction k0 arbitrary: k)
  case Nil
  then show ?case by (cases k) auto
next
  case (Cons a k0)
  then show ?case by (cases k) auto
qed

lemma tok_prefix_eq:
  assumes "list_all token_char k0" and "list_all token_char k"
    and "prefix (tok k0) (tok k @ rest)"
  shows "k0 = k"
proof -
  have a: "CHR ''}'' \<notin> set k0" and b: "CHR ''}'' \<notin> set k"
    using assms(1,2) token_char_not_brace by (auto simp: list_all_iff)
  from assms(3) have "prefix (k0 @ CHR ''}'' # ''}'') (k @ CHR ''}'' # (CHR ''}'' # rest))"
    by (simp add: tok_def)
  with a b show ?thesis by (rule key_prefix_eq)
qed

lemma ReplaceAll_other:
  assumes "list_all token_char k0" and "list_all token_char k" and "k \<noteq> k0"
  shows "strings_ReplaceAll (tok k @ rest) (tok k0) v = tok k @ strings_ReplaceAll rest (tok k0) v"
proof -
  have ne: "tok k0 \<noteq> []" by (simp add: tok_def)
  have n0: "\<not> prefix (tok k0) (tok k @ rest)"
    using tok_prefix_eq [OF assms(1,2)] assms(3) by blast
  have "CHR ''{'' \<notin> set (k @ ''}}'')"
    using assms(2) token_char_not_brace by (auto simp: list_all_iff)
  then have in2: "inert (k @ ''}}'')" by (rule inert_no_open)
  have hd2: "\<not> prefix (tok k0) (CHR ''{'' # k @ ''}}'' @ rest)"
  proof (cases k)
    case Nil
    then show ?thesis by (simp add: tok_Cons)
  next
    case (Cons a k')
    with assms(2) have "a \<noteq> CHR ''{''" using token_char_not_brace by auto
    with Cons show ?thesis by (simp add: tok_Cons)
  qed
  have s1: "strings_ReplaceAll (tok k @ rest) (tok k0) v =
            CHR ''{'' # strings_ReplaceAll (CHR ''{'' # k @ ''}}'' @ rest) (tok k0) v"
    using n0 ne by (simp add: tok_Cons [of k])
  have s2: "strings_ReplaceAll (CHR ''{'' # k @ ''}}'' @ rest) (tok k0) v =
            CHR ''{'' # strings_ReplaceAll ((k @ ''}}'') @ rest) (tok k0) v"
    using hd2 ne by simp
  show ?thesis
    unfolding s1 s2 ReplaceAll_inert [OF in2] by (simp add: tok_def)
qed

lemma ReplaceAll_render:
  assumes "list_all wf_segment segs" and "list_all token_char k0"
  shows "strings_ReplaceAll (render segs) (tok k0) v =
         render (map (\<lambda>p. if p = Tok k0 then Lit v else p) segs)"
  using assms(1)
proof (induction segs)
  case Nil
  then show ?case by (simp add: render_def tok_Cons)
next
  case (Cons p segs)
  then have ih: "strings_ReplaceAll (render segs) (tok k0) v =
         render (map (\<lambda>p. if p = Tok k0 then Lit v else p) segs)" by simp
  show ?case
  proof (cases p)
    case (Lit s)
    with Cons.prems have "inert s" by simp
    from ReplaceAll_inert [OF this, of "render segs" k0 v] Lit ih
    show ?thesis by (simp add: render_def)
  next
    case (Tok k)
    with Cons.prems have k: "list_all token_char k" by simp
    show ?thesis
    proof (cases "k = k0")
      case True
      with Tok ih ReplaceAll_same [of k0 "render segs" v]
      show ?thesis by (simp add: render_def)
    next
      case False
      with Tok ih ReplaceAll_other [OF assms(2) k False, of "render segs" v]
      show ?thesis by (simp add: render_def)
    qed
  qed
qed

lemma Trim_tok:
  assumes "list_all token_char k"
  shows "strings_Trim (tok k) ''{}'' = k"
proof (cases "k = []")
  case True
  then show ?thesis by (simp add: strings_Trim_def tok_def)
next
  case False
  have nb: "\<And>x. x \<in> set k \<Longrightarrow> x \<noteq> CHR ''{'' \<and> x \<noteq> CHR ''}''"
    using assms token_char_not_brace by (auto simp: list_all_iff)
  from False have h: "hd k \<in> set k" and l: "last k \<in> set k" by simp_all
  have d1: "dropWhile (\<lambda>c. c \<in> set ''{}'') (tok k) = k @ ''}}''"
  proof -
    have "dropWhile (\<lambda>c. c \<in> set ''{}'') (k @ ''}}'') = k @ ''}}''"
      using False nb [OF h] by (cases k) auto
    then show ?thesis by (simp add: tok_def)
  qed
  have d2: "dropWhile (\<lambda>c. c \<in> set ''{}'') (rev (k @ ''}}'')) = rev k"
  proof -
    have "rev k \<noteq> []" using False by simp
    moreover have "hd (rev k) = last k" using False by (simp add: hd_rev)
    ultimately have "dropWhile (\<lambda>c. c \<in> set ''{}'') (rev k) = rev k"
      using nb [OF l] by (simp add: dropWhile_eq_self_iff)
    then show ?thesis by simp
  qed
  show ?thesis unfolding strings_Trim_def d1 d2 by simp
qed

lemma Index_dot_zero: "(strings_Index k ''.'' = 0) = (\<exists>r. k = CHR ''.'' # r)"
  by (cases k) (auto simp: Let_def)

lemma tokenKey_tok:
  assumes "list_all token_char k"
  shows "tokenKey (tok k) = stripDot k"
proof -
  have key: "tokenKey (tok k) =
      (if strings_Index k ''.'' = 0 then strings_ReplaceFirst k ''.'' [] else k)"
    by (simp add: tokenKey_def Let_def Trim_tok [OF assms])
  show ?thesis
    unfolding key by (cases k) (simp_all add: stripDot_def Let_def)
qed

lemma prefix_Contains: "prefix sub s \<Longrightarrow> strings_Contains s sub"
  by (cases s) auto

lemma label_of_key:
  assumes "prefix ''Labels.'' key"
  shows "last (strings_SplitAfterN2 key CHR ''.'') = drop 7 key"
proof -
  from assms obtain l where "key = ''Labels.'' @ l" by (auto simp: prefix_def)
  then show ?thesis by simp
qed

lemma fieldLoop_fields:
  "fieldLoop c key m (containerFields c) ret =
     (if key \<in> {''Name'', ''Address'', ''Stack'', ''Service'', ''Health'', ''State'',
                 ''Labels'', ''Host''}
      then strings_ReplaceAll ret m (fieldString c key) else ret)"
  by (auto simp: containerFields_def)

lemma fieldString_values:
  "fieldString c ''Name'' = Container.Name c"
  "fieldString c ''Address'' = Container.Address c"
  "fieldString c ''Stack'' = Container.Stack c"
  "fieldString c ''Service'' = Container.Service c"
  "fieldString c ''Health'' = Container.Health c"
  "fieldString c ''State'' = Container.State c"
  "fieldString c ''Labels'' = []"
  "fieldString c ''Host'' = []"
  by (simp_all add: fieldString_def containerFields_def)

lemma substLoop_step:
  assumes "wf_segment (Tok k)"
  shows "substLoop c (tok k # ms) ret =
     substLoop c ms (case spec_tokenValue c k of
                       Some v \<Rightarrow> strings_ReplaceAll ret (tok k) v | None \<Rightarrow> ret)"
proof -
  from assms have tk: "list_all token_char k" by simp
  have key: "tokenKey (tok k) = stripDot k" by (rule tokenKey_tok [OF tk])
  show ?thesis
  proof (cases "strings_Contains (stripDot k) ''Labels.''")
    case True
    with assms have p: "prefix ''Labels.'' (stripDot k)" by simp
    with True show ?thesis
      by (simp add: key Let_def label_of_key [OF p] spec_tokenValue_def)
  next
    case False
    then have np: "\<not> prefix ''Labels.'' (stripDot k)"
      using prefix_Contains by blast
    show ?thesis
      using False np
      by (auto simp: key Let_def fieldLoop_fields spec_tokenValue_def fieldString_values)
  qed
qed

lemma inert_labelValue:
  "list_all (\<lambda>p. inert (snd p)) ls \<Longrightarrow> inert (labelValue ls l)"
  by (induction ls) (auto simp: labelValue_def)

lemma inert_spec_tokenValue:
  "inert_values c \<Longrightarrow> spec_tokenValue c k = Some v \<Longrightarrow> inert v"
  by (auto simp: spec_tokenValue_def inert_values_def Let_def inert_labelValue
           split: if_splits)

lemma resolve_one:
  "spec_tokenValue c k = Some v \<Longrightarrow>
     map (\<lambda>p. if p = Tok k then Lit v else p) segs = map (resolve c {k}) segs"
proof (induction segs)
  case Nil
  then show ?case by simp
next
  case (Cons p segs)
  then show ?case by (cases p) auto
qed

lemma resolve_none:
  "spec_tokenValue c k = None \<Longrightarrow> map (resolve c {k}) segs = segs"
proof (induction segs)
  case Nil
  then show ?case by simp
next
  case (Cons p segs)
  then show ?case by (cases p) auto
qed

lemma resolve_compose: "resolve c S (resolve c {k} p) = resolve c (insert k S) p"
  by (cases p) (auto split: option.splits)

lemma wf_resolve:
  "inert_values c \<Longrightarrow> wf_segment p \<Longrightarrow> wf_segment (resolve c S p)"
  by (cases p) (auto split: option.splits dest: inert_spec_tokenValue)

lemma substLoop_render:
  assumes "inert_values c"
  shows "list_all wf_segment segs \<Longrightarrow> list_all (\<lambda>k. wf_segment (Tok k)) ks \<Longrightarrow>
     substLoop c (map tok ks) (render segs) = render (map (resolve c (set ks)) segs)"
proof (induction ks arbitrary: segs)
  case Nil
  have "map (resolve c {}) segs = segs"
  proof (induction segs)
    case Nil
    then show ?case by simp
  next
    case (Cons p segs)
    then show ?case by (cases p) auto
  qed
  then show ?case by simp
next
  case (Cons k ks)
  from Cons.prems(2) have wk: "wf_segment (Tok k)" and tk: "list_all token_char k"
    and wks: "list_all (\<lambda>k. wf_segment (Tok k)) ks"
    by simp_all
  let ?segs' = "map (resolve c {k}) segs"
  have step: "(case spec_tokenValue c k of
                 Some v \<Rightarrow> strings_ReplaceAll (render segs) (tok k) v
               | None \<Rightarrow> render segs) = render ?segs'"
  proof (cases "spec_tokenValue c k")
    case None
    then show ?thesis by (simp add: resolve_none)
  next
    case (Some v)
    then show ?thesis
      by (simp add: ReplaceAll_render [OF Cons.prems(1) tk] resolve_one)
  qed
  have wf': "list_all wf_segment ?segs'"
    using Cons.prems(1) assms by (simp add: list_all_iff wf_resolve)
  have "substLoop c (map tok (k # ks)) (render segs) =
        substLoop c (map tok ks) (render ?segs')"
    using substLoop_step [OF wk, of c "map tok ks" "render segs"] step by simp
  also have "\<dots> = render (map (resolve c (set ks)) ?segs')"
    by (rule Cons.IH [OF wf' wks])
  also have "\<dots> = render (map (resolve c (set (k # ks))) segs)"
    by (simp add: resolve_compose comp_def)
  finally show ?case .
qed

lemma resolve_all:
  "\<forall>k. Tok k \<in> set segs \<longrightarrow> k \<in> S \<Longrightarrow>
     render (map (resolve c S) segs) = concat (map (spec_substitute c) segs)"
proof (induction segs)
  case Nil
  then show ?case by (simp add: render_def)
next
  case (Cons p segs)
  then have "render (map (resolve c S) segs) = concat (map (spec_substitute c) segs)"
    by simp
  with Cons.prems show ?case
    by (cases p) (auto simp: render_def split: option.splits)
qed

lemma segment_keys_set: "Tok k \<in> set segs \<Longrightarrow> k \<in> set (segment_keys segs)"
  by (induction segs rule: segment_keys.induct) auto

lemma segment_keys_wf:
  "list_all wf_segment segs \<Longrightarrow> list_all (\<lambda>k. wf_segment (Tok k)) (segment_keys segs)"
  by (induction segs rule: segment_keys.induct) auto

lemma parseCmdTemplate_render:
  assumes "inert_values c" and "list_all wf_segment segs"
  shows "parseCmdTemplate c (render segs) = (concat (map (spec_substitute c) segs), None)"
proof -
  have "substLoop c (regexp_FindAll (render segs)) (render segs) =
        render (map (resolve c (set (segment_keys segs))) segs)"
    using substLoop_render [OF assms(1) assms(2) segment_keys_wf [OF assms(2)]]
    by (simp add: FindAll_render [OF assms(2)])
  also have "\<dots> = concat (map (spec_substitute c) segs)"
    by (rule resolve_all) (simp add: segment_keys_set)
  finally show ?thesis by (simp add: parseCmdTemplate_def)
qed

text \<open>
  Claim C9, as stated, fails when a substituted value itself holds a token: the
  label \<open>greeting\<close> of the container is \<open>hello {{Name}}\<close>, and in the command
  \<open>echo {{Labels.greeting}} from {{Name}}\<close> the first token does not become that
  label value, because the replacement of the second token runs over the text the
  first one brought in.
\<close>

theorem parseCmdTemplate_nested_token_counterexample:
  "render segs_greet = ''echo {{Labels.greeting}} from {{Name}}''
   \<and> concat (map (spec_substitute container_greet) segs_greet) =
       ''echo hello {{Name}} from web1''
   \<and> fst (parseCmdTemplate container_greet ''echo {{Labels.greeting}} from {{Name}}'') =
       ''echo hello web1 from web1''"
proof -
  have 1: "render segs_greet = ''echo {{Labels.greeting}} from {{Name}}''"
    by (simp add: render_def segs_greet_def tok_def)
  have 2: "concat (map (spec_substitute container_greet) segs_greet) =
       ''echo hello {{Name}} from web1''"
    by (simp add: segs_greet_def container_greet_def mkContainer_def spec_tokenValue_def
          stripDot_def labelValue_def)
  have 3: "fst (parseCmdTemplate container_greet ''echo {{Labels.greeting}} from {{Name}}'') =
       ''echo hello web1 from web1''"
    by (simp add: parseCmdTemplate_def container_greet_def mkContainer_def match_token_def
          token_char_def word_char_def tokenKey_def strings_Trim_def containerFields_def
          fieldString_def labelValue_def Let_def)
  from 1 2 3 show ?thesis by blast
qed

text \<open>
  Claim C9, amended. For a container whose string attributes and label values are
  inert and a command of inert text and well-formed tokens, \<open>parseCmdTemplate\<close>
  returns the command with every token replaced by what it stands for
  (\<open>spec_tokenValue\<close>), tokens without a value left as they are, and no error; and for
  every container and command the error it returns is \<open>nil\<close>.
\<close>

theorem parseCmdTemplate_substitutes:
  assumes "inert_values c" and "list_all wf_segment segs"
  shows "parseCmdTemplate c (render segs) = (concat (map (spec_substitute c) segs), None)
     \<and> snd (parseCmdTemplate c' command) = None"
  using parseCmdTemplate_render [OF assms] by (simp add: parseCmdTemplate_def)

theorem parseCmdTemplate_substitutes_witness:
  "parseCmdTemplate container_web1
      ''check {{Name}} {{.Address}} {{Labels.role}} {{staging}} ${HOME} {{Host}}'' =
     (''check web1 10.0.0.1 worker {{staging}} ${HOME} '', None)"
proof -
  have v: "inert_values container_web1"
    by (simp add: inert_values_def container_web1_def mkContainer_def)
  have w: "list_all wf_segment segs_check"
    by (simp add: segs_check_def token_char_def word_char_def stripDot_def)
  have r: "render segs_check =
      ''check {{Name}} {{.Address}} {{Labels.role}} {{staging}} ${HOME} {{Host}}''"
    by (simp add: render_def segs_check_def tok_def)
  have s: "concat (map (spec_substitute container_web1) segs_check) =
      ''check web1 10.0.0.1 worker {{staging}} ${HOME} ''"
    by (simp add: segs_check_def container_web1_def mkContainer_def spec_tokenValue_def
          stripDot_def labelValue_def tok_def)
  from parseCmdTemplate_substitutes [OF v w, of container_web1 "[]"] r s show ?thesis by simp
qed

section \<open>Further properties of the runner\<close>

text \<open>
  The general form of what the evaluation for claim C2 shows. When the fetched token
  differs from the stored one and the context build fails, the runner has stored the
  fetched token all the same, so every later poll that fetches the same token returns
  \<open>nil\<close> after the version fetch alone: the failed build is not attempted again
  for that version.
\<close>

theorem poll_context_failure_commits_version:
  assumes "GetVersion env h = Inr v" and "v \<noteq> Version r"
    and "fst (createContext env (h @ [EvGetVersion])) = Inl e"
    and "GetVersion env h' = Inr v"
  shows "Version (snd (fst (poll env h r))) = v
     \<and> poll env h' (snd (fst (poll env h r))) =
         ((Return_nil, snd (fst (poll env h r))), [EvGetVersion])"
proof -
  from assms(2) have ne: "Version r \<noteq> v" by auto
  obtain evs where c: "createContext env (h @ [EvGetVersion]) = (Inl e, evs)"
    using assms(3) by (cases "createContext env (h @ [EvGetVersion])") auto
  have r': "snd (fst (poll env h r)) = r\<lparr>Version := v\<rparr>"
    using assms(1) ne c by (simp add: poll_def Let_def)
  show ?thesis
    unfolding r' using assms(4) by (simp add: poll_def)
qed

theorem poll_context_failure_commits_version_witness:
  "poll env_ctx_once [EvGetVersion, EvGetServices, EvSleep 2] (snd (fst (poll env_ctx_once [] runner_init)))
     = ((Return_nil, snd (fst (poll env_ctx_once [] runner_init))), [EvGetVersion])"
proof -
  have g: "\<And>h. GetVersion env_ctx_once h = Inr ''v1''"
    by (simp add: env_ctx_once_def env_same_def env0_def)
  have n: "''v1'' \<noteq> Version runner_init" by (simp add: runner_init_def)
  have c: "fst (createContext env_ctx_once ([] @ [EvGetVersion])) = Inl ''connection refused''"
    by (simp add: createContext_def env_ctx_once_def)
  from poll_context_failure_commits_version [OF g n c g] show ?thesis by blast
qed

text \<open>
  The host of a container is the first host of the snapshot with the container's host
  UUID, and the zero value when there is none.
\<close>

theorem findHost_first_match:
  "findHost hosts uuid zeroHost =
     (case find (\<lambda>h. Host.UUID h = uuid) hosts of Some h \<Rightarrow> h | None \<Rightarrow> zeroHost)"
  by (induction hosts) simp_all

theorem findHost_first_match_witness:
  "findHost [hostA, hostB] ''h1'' zeroHost = hostA \<and> findHost [hostA, hostB] ''h2'' zeroHost = zeroHost"
  using findHost_first_match [of "[hostA, hostB]" "''h1''"]
        findHost_first_match [of "[hostA, hostB]" "''h2''"]
  by (simp add: hostA_def hostB_def)

lemma Split_two:
  "sep \<notin> set a \<Longrightarrow> sep \<notin> set b \<Longrightarrow> strings_Split (a @ sep # b) sep = [a, b]"
  by (induction a) (auto simp: strings_Split_no_sep)

text \<open>
  A port string \<open>public:internal/protocol\<close> with one colon and, behind it, one slash
  becomes the service port of its three parts; a string without a colon is dropped;
  and no more ports come out than strings went in.
\<close>

theorem parseServicePorts_shape:
  assumes "CHR '':'' \<notin> set pub" and "CHR '':'' \<notin> set inner" and "CHR '':'' \<notin> set proto"
    and "CHR ''/'' \<notin> set inner" and "CHR ''/'' \<notin> set proto"
  shows "parseServicePorts ((pub @ '':'' @ inner @ ''/'' @ proto) # ports) =
           \<lparr> PublicPort = pub, InternalPort = inner, Protocol = proto \<rparr> # parseServicePorts ports
       \<and> parseServicePorts (pub # ports) = parseServicePorts ports
       \<and> length (parseServicePorts ports) \<le> length ports"
proof -
  have 1: "strings_Split (pub @ CHR '':'' # inner @ CHR ''/'' # proto) CHR '':'' =
             [pub, inner @ CHR ''/'' # proto]"
    using Split_two [of "CHR '':''" pub "inner @ CHR ''/'' # proto"] assms by simp
  have 2: "strings_Split (inner @ CHR ''/'' # proto) CHR ''/'' = [inner, proto]"
    using Split_two [of "CHR ''/''" inner proto] assms by simp
  have 3: "strings_Split pub CHR '':'' = [pub]"
    using assms(1) by (rule strings_Split_no_sep)
  have 4: "length (parseServicePorts ports) \<le> length ports"
    by (induction ports) (auto simp: Let_def)
  show ?thesis using 4 by (simp add: 1 2 3 Let_def)
qed

theorem parseServicePorts_shape_witness:
  "parseServicePorts [''80:8080/tcp'', ''8080'', ''53:53/udp/x''] =
     [\<lparr> PublicPort = ''80'', InternalPort = ''8080'', Protocol = ''tcp'' \<rparr>]"
proof -
  have "CHR '':'' \<notin> set ''80''" "CHR '':'' \<notin> set ''8080''" "CHR '':'' \<notin> set ''tcp''"
    "CHR ''/'' \<notin> set ''8080''" "CHR ''/'' \<notin> set ''tcp''" by simp_all
  from parseServicePorts_shape [OF this, of "[''8080'', ''53:53/udp/x'']"]
  show ?thesis by simp
qed

text \<open>
  When the rename fails with a device-or-resource-busy error, the staging file is
  read and inspected, its content is written to the destination with the staging
  file's mode, and, when that write succeeds, the destination gets the staging file's
  owner.
\<close>

theorem copyStagingToDestination_cross_device:
  assumes "os_Rename env h s d = Some err"
    and "strings_Contains err ''device or resource busy''"
    and "ioutil_ReadFile env (h @ [EvRename s d]) s = Inr content"
    and "os_Stat env (h @ [EvRename s d, EvReadFile s]) s = Stat_ok sfi"
    and "Sys sfi = Some (uid, gid)"
  shows "snd (copyStagingToDestination env h s d) =
           [EvRename s d, EvReadFile s, EvStat s, EvWriteFile d content (Mode sfi)] @
           (if ioutil_WriteFile env (h @ [EvRename s d, EvReadFile s, EvStat s]) d content
                 (Mode sfi) = None
            then [EvChown d uid gid] else [])"
  using assms by (simp add: copyStagingToDestination_def Let_def split: option.splits)

theorem copyStagingToDestination_cross_device_witness:
  "copyStagingToDestination env_crossdev [] ''/etc/.app.conf-001'' ''/etc/app.conf'' =
     (None, [EvRename ''/etc/.app.conf-001'' ''/etc/app.conf'', EvReadFile ''/etc/.app.conf-001'',
             EvStat ''/etc/.app.conf-001'', EvWriteFile ''/etc/app.conf'' ''hello'' 420,
             EvChown ''/etc/app.conf'' 0 0])"
proof -
  have r: "os_Rename env_crossdev [] ''/etc/.app.conf-001'' ''/etc/app.conf'' =
       Some ''rename: device or resource busy''"
    by (simp add: env_crossdev_def)
  have b: "strings_Contains ''rename: device or resource busy'' ''device or resource busy''"
    by simp
  have f: "ioutil_ReadFile env_crossdev
       ([] @ [EvRename ''/etc/.app.conf-001'' ''/etc/app.conf'']) ''/etc/.app.conf-001'' = Inr ''hello''"
    by (simp add: env_crossdev_def env_same_def)
  have s: "os_Stat env_crossdev
       ([] @ [EvRename ''/etc/.app.conf-001'' ''/etc/app.conf'', EvReadFile ''/etc/.app.conf-001''])
       ''/etc/.app.conf-001'' = Stat_ok fileInfo0"
    by (simp add: env_crossdev_def env_same_def)
  have y: "Sys fileInfo0 = Some (0, 0)" by (simp add: fileInfo0_def)
  have res: "fst (copyStagingToDestination env_crossdev [] ''/etc/.app.conf-001'' ''/etc/app.conf'')
       = None"
    by (simp add: copyStagingToDestination_def env_crossdev_def env_same_def env0_def
          fileInfo0_def Let_def)
  have w: "ioutil_WriteFile env_crossdev
       ([] @ [EvRename ''/etc/.app.conf-001'' ''/etc/app.conf'', EvReadFile ''/etc/.app.conf-001'',
              EvStat ''/etc/.app.conf-001'']) ''/etc/app.conf'' ''hello'' (Mode fileInfo0) = None"
    by (simp add: env_crossdev_def env_same_def env0_def)
  from copyStagingToDestination_cross_device [OF r b f s y] w res
  show ?thesis by (simp add: prod_eq_iff fileInfo0_def)
qed

end
